theory Spec2Isabelle
  imports Complex_Main
begin

section \<open>Numbers, environment and the outside world\<close>

text \<open>
  JavaScript numbers are modelled as rationals: NaN and the infinities are outside the
  model. The price adjustments and thresholds of the engine are computed exactly; the
  promotion prices are computed in double arithmetic (below). The one place where the
  source can leave the finite numbers, a division by zero, is written out as \<open>None\<close>.
\<close>

definition Math_round :: "rat \<Rightarrow> rat" where
  \<comment> \<open>\<open>Math.round\<close>: the nearest integer, a half rounds towards plus infinity.\<close>
  "Math_round x = of_int \<lfloor>x + 1 / 2\<rfloor>"

subsection \<open>Double arithmetic\<close>

text \<open>
  Where the rounding of a product or quotient decides a price (the promotions), the
  arithmetic of the source is modelled as it runs: every operation gives the double nearest
  to the exact result, a tie going to the even significand (53 bits). A number is the
  rational it stands for; the exponent is not bounded, so overflow to infinity and the
  subnormal numbers stay outside the model.
\<close>

fun ilog2 :: "nat \<Rightarrow> nat" where
  "ilog2 n = (if n < 2 then 0 else Suc (ilog2 (n div 2)))"

declare ilog2.simps [simp del]

definition exponent :: "rat \<Rightarrow> int" where
  \<comment> \<open>For \<open>x > 0\<close>: the \<open>e\<close> with \<open>2 ^ e \<le> x < 2 ^ (e + 1)\<close>.\<close>
  "exponent x =
     (case quotient_of x of
        (n, d) \<Rightarrow>
          (let k = int (ilog2 (nat n)) - int (ilog2 (nat d))
           in if power_int 2 k \<le> x then k else k - 1))"

definition roundHalfEven :: "rat \<Rightarrow> int" where
  "roundHalfEven y =
     (let n = \<lfloor>y\<rfloor>; r = y - of_int n
      in if r < 1 / 2 then n else if 1 / 2 < r then n + 1 else if even n then n else n + 1)"

definition double :: "rat \<Rightarrow> rat" where
  \<comment> \<open>The double nearest to \<open>x\<close>.\<close>
  "double x =
     (if x = 0 then 0
      else (let e = exponent \<bar>x\<bar>;
                m = roundHalfEven (\<bar>x\<bar> * power_int 2 (52 - e))
            in sgn x * of_int m * power_int 2 (e - 52)))"

definition fadd :: "rat \<Rightarrow> rat \<Rightarrow> rat" where
  "fadd a b = double (a + b)"

definition fsub :: "rat \<Rightarrow> rat \<Rightarrow> rat" where
  "fsub a b = double (a - b)"

definition fmul :: "rat \<Rightarrow> rat \<Rightarrow> rat" where
  "fmul a b = double (a * b)"

definition js_divide :: "rat \<Rightarrow> rat \<Rightarrow> rat option" where
  \<comment> \<open>\<open>a / b\<close>; by zero the result is not finite.\<close>
  "js_divide a b = (if b = 0 then None else Some (double (a / b)))"

definition percent :: "rat \<Rightarrow> rat" where
  \<comment> \<open>\<open>x / 100\<close>\<close>
  "percent x = double (x / 100)"

definition js_trunc :: "rat \<Rightarrow> int" where
  \<comment> \<open>Towards zero.\<close>
  "js_trunc x = (if 0 \<le> x then \<lfloor>x\<rfloor> else \<lceil>x\<rceil>)"

definition timeClip :: "rat \<Rightarrow> int option" where
  \<comment> \<open>\<open>new Date(t)\<close>: the time value, or \<open>None\<close> for an invalid date.\<close>
  "timeClip t = (if \<bar>t\<bar> > 8640000000000000 then None else Some (js_trunc t))"

text \<open>
  \<open>process.env\<close>: a variable after \<open>parseFloat\<close> is a number, or \<open>None\<close> when it
  is unset or does not parse (NaN).
\<close>

record process_env =
  MIN_PROMPT_PRICE :: "rat option"
  MAX_PROMPT_PRICE :: "rat option"

definition or_default :: "rat option \<Rightarrow> rat \<Rightarrow> rat" where
  \<comment> \<open>\<open>parseFloat(v) || d\<close>: NaN and 0 are falsy.\<close>
  "or_default v d = (case v of None \<Rightarrow> d | Some x \<Rightarrow> if x = 0 then d else x)"

record content =
  title :: string
  description :: string

record prompt = content +
  id' :: string
  price :: rat
  conversion_rate :: rat
  views_last_hour :: rat
  total_views :: rat
  currently_testing :: bool
  price_changed_recently :: bool
  on_promotion :: bool
  promotion_percentage :: rat
  creation_date :: "int option"

record performance =
  views_last_7_days :: rat
  perf_conversion_rate :: rat

record result = content +
  conversion :: rat

record variations =
  titles :: "string list option"
  descriptions :: "string list option"
  tested_count :: "nat option"
  results :: "result list option"

record trends =
  price_elasticity :: rat

datatype error = Error string

fun error_message :: "error \<Rightarrow> string" where
  "error_message (Error m) = m"

text \<open>
  The action records of the daily and weekly runs, one constructor for each \<open>type\<close>;
  the arguments are the fields in the order of the source, the last one the timestamp.
  Accented letters of the source's texts are written without the accent.
\<close>

datatype action =
    Apply_best_variation string result int
  | Start_ab_test string nat "string option" "string option" int
  | Improve_content string string string string string int
  | Optimize_long_term_price_up string rat rat rat int
  | Optimize_long_term_price_down string rat rat rat int
  | Refresh_content string string string string string int
  | Remove_promotion string rat "rat option" rat int
  | Apply_promotion string rat rat rat int

fun action_type :: "action \<Rightarrow> string" where
  "action_type (Apply_best_variation _ _ _) = ''apply_best_variation''"
| "action_type (Start_ab_test _ _ _ _ _) = ''start_ab_test''"
| "action_type (Improve_content _ _ _ _ _ _) = ''improve_content''"
| "action_type (Optimize_long_term_price_up _ _ _ _ _) = ''optimize_long_term_price_up''"
| "action_type (Optimize_long_term_price_down _ _ _ _ _) = ''optimize_long_term_price_down''"
| "action_type (Refresh_content _ _ _ _ _ _) = ''refresh_content''"
| "action_type (Remove_promotion _ _ _ _ _) = ''remove_promotion''"
| "action_type (Apply_promotion _ _ _ _ _) = ''apply_promotion''"

fun action_promptId :: "action \<Rightarrow> string" where
  "action_promptId (Apply_best_variation i _ _) = i"
| "action_promptId (Start_ab_test i _ _ _ _) = i"
| "action_promptId (Improve_content i _ _ _ _ _) = i"
| "action_promptId (Optimize_long_term_price_up i _ _ _ _) = i"
| "action_promptId (Optimize_long_term_price_down i _ _ _ _) = i"
| "action_promptId (Refresh_content i _ _ _ _ _) = i"
| "action_promptId (Remove_promotion i _ _ _ _) = i"
| "action_promptId (Apply_promotion i _ _ _ _) = i"

record notification =
  type' :: string
  subject :: string
  message :: string
  attachment :: "action list option"

text \<open>The body of a PATCH: the fields it sets, in the order the source writes them.\<close>

datatype field =
    Price "rat option"
  | Title string
  | Description string
  | Currently_testing bool
  | On_promotion bool
  | Promotion_percentage rat
  | Promotion_end_date "int option"
  | Last_refresh_date int

datatype request =
    PATCH_prompt string "field list"
  | GET_prompt string
  | GET_prompts
  | GET_performance string
  | Retrieve_variations string
  | Long_term_trends string
  | Send_email notification

text \<open>
  The collaborators that the sources at hand do not hold (the remote catalog behind axios,
  the variation storage of \<open>services/variation-storage\<close>, the analytics trends with their
  random elasticity, the mail transport and the clock) are parameters: each answers from the requests made so far, with an error or a
  value. Every theorem below holds for all of them.
\<close>

record remote =
  patch_prompt :: "request list \<Rightarrow> string \<Rightarrow> field list \<Rightarrow> error + prompt"
  get_prompt :: "request list \<Rightarrow> string \<Rightarrow> error + prompt"
  get_prompts :: "request list \<Rightarrow> error + prompt list"
  get_performance :: "request list \<Rightarrow> string \<Rightarrow> error + performance"
  retrieve_variations :: "request list \<Rightarrow> string \<Rightarrow> error + variations option"
  long_term_trends :: "request list \<Rightarrow> string \<Rightarrow> error + trends option"
  send_email :: "request list \<Rightarrow> notification \<Rightarrow> error option"
  clock :: "request list \<Rightarrow> int"

text \<open>
  What a run leaves behind: the requests it issued, the notifications it handed to
  \<open>sendNotification\<close> and the timers it registered with \<open>setTimeout\<close> (prompt, variation index, delay in ms).
\<close>

record world =
  requests :: "request list"
  notifications :: "notification list"
  timers :: "(string \<times> nat \<times> int) list"

definition call :: "(request list \<Rightarrow> 'a) \<Rightarrow> request \<Rightarrow> world \<Rightarrow> 'a \<times> world" where
  "call f q w = (f (requests w), w\<lparr>requests := requests w @ [q]\<rparr>)"

text \<open>What the source iterates or filters: an array, or something that is none.\<close>

datatype 'a json = Array "'a list" | NotArray

section \<open>The notification system\<close>

definition sendEmail :: "remote \<Rightarrow> notification \<Rightarrow> world \<Rightarrow> (error + unit) \<times> world" where
  "sendEmail r n w =
     (case call (\<lambda>h. send_email r h n) (Send_email n) w of
        (Some e, w') \<Rightarrow> (Inl e, w')
      | (None, w') \<Rightarrow> (Inr (), w'))"

definition sendNotification :: "remote \<Rightarrow> notification \<Rightarrow> world \<Rightarrow> (error + bool) \<times> world" where
  "sendNotification r options w =
     (case sendEmail r options (w\<lparr>notifications := notifications w @ [options]\<rparr>) of
        (Inr _, w') \<Rightarrow> (Inr True, w')
      | (Inl e, w') \<Rightarrow> (Inr False, w'))"

section \<open>The API client\<close>

definition updatePrompt ::
  "remote \<Rightarrow> string \<Rightarrow> field list \<Rightarrow> world \<Rightarrow> (error + prompt) \<times> world" where
  "updatePrompt r promptId updateData w =
     call (\<lambda>h. patch_prompt r h promptId updateData) (PATCH_prompt promptId updateData) w"

definition api_minPrice :: "process_env \<Rightarrow> rat" where
  "api_minPrice ev = or_default (MIN_PROMPT_PRICE ev) 10"

definition api_maxPrice :: "process_env \<Rightarrow> rat" where
  "api_maxPrice ev = or_default (MAX_PROMPT_PRICE ev) 150"

definition clampedPrice :: "process_env \<Rightarrow> rat \<Rightarrow> rat" where
  \<comment> \<open>\<open>newPrice\<close> of \<open>updatePromptPrice\<close>.\<close>
  "clampedPrice ev p = min (max (Math_round p) (api_minPrice ev)) (api_maxPrice ev)"

definition updatePromptPrice ::
  "remote \<Rightarrow> process_env \<Rightarrow> string \<Rightarrow> rat \<Rightarrow> world \<Rightarrow> (error + prompt) \<times> world" where
  "updatePromptPrice r ev promptId p w =
     (let newPrice = clampedPrice ev p
      in call (\<lambda>h. patch_prompt r h promptId [Price (Some newPrice)])
           (PATCH_prompt promptId [Price (Some newPrice)]) w)"

definition getPrompt :: "remote \<Rightarrow> string \<Rightarrow> world \<Rightarrow> (error + prompt) \<times> world" where
  "getPrompt r promptId w = call (\<lambda>h. get_prompt r h promptId) (GET_prompt promptId) w"



section \<open>The optimization engine\<close>

record engine =
  minPriceAdjustment :: rat
  maxPriceAdjustment :: rat
  minPromptPrice :: rat
  maxPromptPrice :: rat
  highConversionThreshold :: rat
  lowConversionThreshold :: rat
  highViewThreshold :: rat
  minTestViews :: rat

definition OptimizationEngine :: "process_env \<Rightarrow> engine" where
  \<comment> \<open>The constructor.\<close>
  "OptimizationEngine ev =
     \<lparr> minPriceAdjustment = 95 / 100,
       maxPriceAdjustment = 105 / 100,
       minPromptPrice = or_default (MIN_PROMPT_PRICE ev) 25,
       maxPromptPrice = or_default (MAX_PROMPT_PRICE ev) 150,
       highConversionThreshold = 12 / 100,
       lowConversionThreshold = 3 / 100,
       highViewThreshold = 20,
       minTestViews = 100 \<rparr>"

record updatedPrompt =
  u_id :: string
  oldPrice :: rat
  newPrice :: rat
  reason :: string

definition increasePrice :: "engine \<Rightarrow> prompt \<Rightarrow> rat" where
  "increasePrice eng p = min (price p * maxPriceAdjustment eng) (maxPromptPrice eng)"

definition decreasePrice :: "engine \<Rightarrow> prompt \<Rightarrow> rat" where
  "decreasePrice eng p = max (price p * minPriceAdjustment eng) (minPromptPrice eng)"

text \<open>
  One turn of the \<open>for\<close> loop of \<open>hourlyOptimization\<close>: the records pushed for this
  prompt, or the error that leaves the loop.
\<close>

definition hourlyStep ::
  "remote \<Rightarrow> process_env \<Rightarrow> engine \<Rightarrow> prompt \<Rightarrow> world \<Rightarrow> (error + updatedPrompt list) \<times> world" where
  "hourlyStep r ev eng p w =
     (if currently_testing p then (Inr [], w)
      else if conversion_rate p > highConversionThreshold eng \<and> views_last_hour p > highViewThreshold eng
      then
        (let newPrice = increasePrice eng p
         in if newPrice > price p + 1
            then (case updatePromptPrice r ev (id' p) newPrice w of
                    (Inl e, w') \<Rightarrow> (Inl e, w')
                  | (Inr _, w') \<Rightarrow>
                      (Inr [\<lparr> u_id = id' p, oldPrice = price p, newPrice = newPrice,
                              reason = ''increase_high_conversion'' \<rparr>], w'))
            else (Inr [], w))
      else if views_last_hour p > highViewThreshold eng * (15 / 10)
              \<and> conversion_rate p < lowConversionThreshold eng
      then
        (let newPrice = decreasePrice eng p
         in if newPrice < price p - 1
            then (case updatePromptPrice r ev (id' p) newPrice w of
                    (Inl e, w') \<Rightarrow> (Inl e, w')
                  | (Inr _, w') \<Rightarrow>
                      (Inr [\<lparr> u_id = id' p, oldPrice = price p, newPrice = newPrice,
                              reason = ''decrease_low_conversion'' \<rparr>], w'))
            else (Inr [], w))
      else (Inr [], w))"

fun hourlyLoop ::
  "remote \<Rightarrow> process_env \<Rightarrow> engine \<Rightarrow> prompt list \<Rightarrow> updatedPrompt list \<Rightarrow> world
     \<Rightarrow> (error + updatedPrompt list) \<times> world" where
  "hourlyLoop r ev eng [] updatedPrompts w = (Inr updatedPrompts, w)"
| "hourlyLoop r ev eng (p # stats) updatedPrompts w =
     (case hourlyStep r ev eng p w of
        (Inl e, w') \<Rightarrow> (Inl e, w')
      | (Inr us, w') \<Rightarrow> hourlyLoop r ev eng stats (updatedPrompts @ us) w')"

definition hourlyBody ::
  "remote \<Rightarrow> process_env \<Rightarrow> engine \<Rightarrow> prompt json \<Rightarrow> world \<Rightarrow> (error + updatedPrompt list) \<times> world" where
  \<comment> \<open>The \<open>try\<close> block.\<close>
  "hourlyBody r ev eng stats w =
     (case stats of
        NotArray \<Rightarrow> (Inl (Error ''stats is not iterable''), w)
      | Array ps \<Rightarrow> hourlyLoop r ev eng ps [] w)"

definition hourlyOptimization ::
  "remote \<Rightarrow> process_env \<Rightarrow> engine \<Rightarrow> prompt json \<Rightarrow> world \<Rightarrow> (error + updatedPrompt list) \<times> world" where
  "hourlyOptimization r ev eng stats w =
     (case hourlyBody r ev eng stats w of
        (Inr updatedPrompts, w') \<Rightarrow> (Inr updatedPrompts, w')
      | (Inl e, w') \<Rightarrow>
          (case sendNotification r
                  \<lparr> type' = ''error'', subject = ''Erreur d'optimisation horaire'',
                    message = ''Une erreur est survenue lors de l'optimisation horaire: '' @ error_message e,
                    attachment = None \<rparr> w' of
             (Inl e', w'') \<Rightarrow> (Inl e', w'')
           | (Inr _, w'') \<Rightarrow> (Inr [], w'')))"

text \<open>
  \<open>Array.prototype.sort\<close> with a comparator: stable (ECMAScript 2019), an element moves
  behind another only when the comparator is positive. Written as a stable insertion sort.
\<close>

fun js_insert :: "('a \<Rightarrow> 'a \<Rightarrow> rat) \<Rightarrow> 'a \<Rightarrow> 'a list \<Rightarrow> 'a list" where
  "js_insert cmp x [] = [x]"
| "js_insert cmp x (y # ys) = (if cmp x y \<le> 0 then x # y # ys else y # js_insert cmp x ys)"

definition js_sort :: "('a \<Rightarrow> 'a \<Rightarrow> rat) \<Rightarrow> 'a list \<Rightarrow> 'a list" where
  "js_sort cmp xs = foldr (js_insert cmp) xs []"

definition nth_opt :: "'a list \<Rightarrow> nat \<Rightarrow> 'a option" where
  \<comment> \<open>\<open>xs[i]\<close>: \<open>undefined\<close> out of range.\<close>
  "nth_opt xs i = (if i < length xs then Some (xs ! i) else None)"

definition scheduleTestEnd :: "string \<Rightarrow> nat \<Rightarrow> int \<Rightarrow> world \<Rightarrow> world" where
  \<comment> \<open>Registers the timer; its callback runs after the run, three days later.\<close>
  "scheduleTestEnd promptId variationIndex duration w =
     w\<lparr>timers := timers w @ [(promptId, variationIndex, duration)]\<rparr>"

definition applyBest ::
  "remote \<Rightarrow> prompt \<Rightarrow> result list \<Rightarrow> world \<Rightarrow> (error + action option) \<times> world" where
  \<comment> \<open>\<open>startABTest\<close>, the branch where every variant has been tested.\<close>
  "applyBest r p rs w =
     (case js_sort (\<lambda>a b. conversion b - conversion a) rs of
        [] \<Rightarrow> (Inr None, w)
      | bestVariation # _ \<Rightarrow>
          (case updatePrompt r (id' p)
                  [Title (title bestVariation), Description (description bestVariation)] w of
             (Inl e, w') \<Rightarrow> (Inr None, w')
           | (Inr _, w') \<Rightarrow>
               (Inr (Some (Apply_best_variation (id' p) bestVariation (clock r (requests w')))), w')))"

definition testNext ::
  "remote \<Rightarrow> prompt \<Rightarrow> variations \<Rightarrow> string list \<Rightarrow> string list \<Rightarrow> world
     \<Rightarrow> (error + action option) \<times> world" where
  \<comment> \<open>\<open>startABTest\<close>, the branch that tests the next variant.\<close>
  "testNext r p v ts ds w =
     (let nextIndex = (case tested_count v of None \<Rightarrow> 0 | Some n \<Rightarrow> n)
      in case updatePrompt r (id' p)
                ((case nth_opt ts nextIndex of None \<Rightarrow> [] | Some t \<Rightarrow> [Title t])
                 @ (case nth_opt ds nextIndex of None \<Rightarrow> [] | Some d \<Rightarrow> [Description d])
                 @ [Currently_testing True]) w of
           (Inl e, w') \<Rightarrow> (Inr None, w')
         | (Inr _, w') \<Rightarrow>
             (let w'' = scheduleTestEnd (id' p) nextIndex (3 * 24 * 60 * 60 * 1000) w'
              in (Inr (Some (Start_ab_test (id' p) nextIndex (nth_opt ts nextIndex)
                               (nth_opt ds nextIndex) (clock r (requests w'')))), w'')))"

definition startABTest :: "remote \<Rightarrow> prompt \<Rightarrow> world \<Rightarrow> (error + action option) \<times> world" where
  "startABTest r p w =
     (case call (\<lambda>h. retrieve_variations r h (id' p)) (Retrieve_variations (id' p)) w of
        (Inl e, w') \<Rightarrow> (Inr None, w')
      | (Inr None, w') \<Rightarrow> (Inr None, w')
      | (Inr (Some v), w') \<Rightarrow>
          (case (titles v, descriptions v) of
             (Some ts, Some ds) \<Rightarrow>
               if length ts \<le> 1 then (Inr None, w')
               else if (case tested_count v of None \<Rightarrow> False | Some n \<Rightarrow> n \<ge> length ts)
               then (case results v of
                       None \<Rightarrow> (Inr None, w')
                     | Some rs \<Rightarrow> if length rs = 0 then (Inr None, w') else applyBest r p rs w')
               else testNext r p v ts ds w'
           | _ \<Rightarrow> (Inr None, w')))"

definition improvePromptContent ::
  "remote \<Rightarrow> prompt \<Rightarrow> world \<Rightarrow> (error + action option) \<times> world" where
  "improvePromptContent r p w =
     (let improvedTitle = title p @ '' - Version Optimisee'';
          improvedDescription = description p
            @ '' Cette version amelioree offre des resultats plus precis et personnalises.''
      in case updatePrompt r (id' p) [Title improvedTitle, Description improvedDescription] w of
           (Inl e, w') \<Rightarrow> (Inr None, w')
         | (Inr _, w') \<Rightarrow>
             (Inr (Some (Improve_content (id' p) (title p) improvedTitle (description p)
                           improvedDescription (clock r (requests w')))), w'))"

definition optimizeLongTermPrice ::
  "remote \<Rightarrow> process_env \<Rightarrow> engine \<Rightarrow> prompt \<Rightarrow> world \<Rightarrow> (error + action option) \<times> world" where
  "optimizeLongTermPrice r ev eng p w =
     (case call (\<lambda>h. long_term_trends r h (id' p)) (Long_term_trends (id' p)) w of
        (Inl e, w') \<Rightarrow> (Inr None, w')
      | (Inr None, w') \<Rightarrow> (Inr None, w')
      | (Inr (Some longTermData), w') \<Rightarrow>
          if price_elasticity longTermData = 0 then (Inr None, w')
          else if price_elasticity longTermData > 1 / 10
          then (let newPrice = min (price p * (11 / 10)) (maxPromptPrice eng)
                in case updatePromptPrice r ev (id' p) newPrice w' of
                     (Inl e, w'') \<Rightarrow> (Inr None, w'')
                   | (Inr _, w'') \<Rightarrow>
                       (Inr (Some (Optimize_long_term_price_up (id' p) (price p) newPrice
                                     (price_elasticity longTermData) (clock r (requests w'')))), w''))
          else if price_elasticity longTermData < - (1 / 10)
          then (let newPrice = max (price p * (9 / 10)) (minPromptPrice eng)
                in case updatePromptPrice r ev (id' p) newPrice w' of
                     (Inl e, w'') \<Rightarrow> (Inr None, w'')
                   | (Inr _, w'') \<Rightarrow>
                       (Inr (Some (Optimize_long_term_price_down (id' p) (price p) newPrice
                                     (price_elasticity longTermData) (clock r (requests w'')))), w''))
          else (Inr None, w'))"

text \<open>
  The loop shared by the daily and weekly passes:
  \<open>for (const x of xs) { const action = await f(x); if (action) actions.push(action); }\<close>.
\<close>

fun collectActions ::
  "('a \<Rightarrow> world \<Rightarrow> (error + action option) \<times> world) \<Rightarrow> 'a list \<Rightarrow> action list \<Rightarrow> world
     \<Rightarrow> (error + action list) \<times> world" where
  "collectActions f [] actions w = (Inr actions, w)"
| "collectActions f (x # xs) actions w =
     (case f x w of
        (Inl e, w') \<Rightarrow> (Inl e, w')
      | (Inr None, w') \<Rightarrow> collectActions f xs actions w'
      | (Inr (Some a), w') \<Rightarrow> collectActions f xs (actions @ [a]) w')"

definition promptsForTesting :: "engine \<Rightarrow> prompt list \<Rightarrow> prompt list" where
  "promptsForTesting eng allData =
     filter (\<lambda>p. total_views p > minTestViews eng
                \<and> \<not> currently_testing p
                \<and> conversion_rate p < highConversionThreshold eng) allData"

definition lowPerformingPrompts :: "engine \<Rightarrow> prompt list \<Rightarrow> prompt list" where
  "lowPerformingPrompts eng allData =
     filter (\<lambda>p. total_views p > minTestViews eng * 2
                \<and> conversion_rate p < lowConversionThreshold eng
                \<and> \<not> currently_testing p) allData"

definition stablePricePrompts :: "engine \<Rightarrow> prompt list \<Rightarrow> prompt list" where
  "stablePricePrompts eng allData =
     filter (\<lambda>p. total_views p > minTestViews eng * 3
                \<and> \<not> price_changed_recently p
                \<and> \<not> currently_testing p) allData"

definition dailyBody ::
  "remote \<Rightarrow> process_env \<Rightarrow> engine \<Rightarrow> prompt json \<Rightarrow> world \<Rightarrow> (error + action list) \<times> world" where
  \<comment> \<open>The \<open>try\<close> block.\<close>
  "dailyBody r ev eng allData w =
     (case allData of
        NotArray \<Rightarrow> (Inl (Error ''allData.filter is not a function''), w)
      | Array ps \<Rightarrow>
          (case collectActions (startABTest r) (take 2 (promptsForTesting eng ps)) [] w of
             (Inl e, w1) \<Rightarrow> (Inl e, w1)
           | (Inr actions1, w1) \<Rightarrow>
               (case collectActions (improvePromptContent r)
                       (take 3 (lowPerformingPrompts eng ps)) actions1 w1 of
                  (Inl e, w2) \<Rightarrow> (Inl e, w2)
                | (Inr actions2, w2) \<Rightarrow>
                    collectActions (optimizeLongTermPrice r ev eng)
                      (stablePricePrompts eng ps) actions2 w2)))"

definition dailyOptimization ::
  "remote \<Rightarrow> process_env \<Rightarrow> engine \<Rightarrow> prompt json \<Rightarrow> world \<Rightarrow> (error + action list) \<times> world" where
  "dailyOptimization r ev eng allData w =
     (case dailyBody r ev eng allData w of
        (Inr actions, w') \<Rightarrow> (Inr actions, w')
      | (Inl e, w') \<Rightarrow>
          (case sendNotification r
                  \<lparr> type' = ''error'', subject = ''Erreur d'optimisation quotidienne'',
                    message = ''Une erreur est survenue lors de l'optimisation quotidienne: ''
                      @ error_message e,
                    attachment = None \<rparr> w' of
             (Inl e', w'') \<Rightarrow> (Inl e', w'')
           | (Inr _, w'') \<Rightarrow> (Inr [], w'')))"












section \<open>The promotion service\<close>

record promotionParams =
  flashDiscount :: rat
  standardDiscount :: rat
  bundleDiscount :: rat
  specialEventDiscount :: rat
  maxPromotionDuration :: rat

definition PromotionService :: promotionParams where
  \<comment> \<open>The constructor's \<open>promotionParams\<close>.\<close>
  "PromotionService =
     \<lparr> flashDiscount = 25, standardDiscount = 15, bundleDiscount = 20,
       specialEventDiscount = 30, maxPromotionDuration = 3 * 24 \<rparr>"

definition promotionFields ::
  "promotionParams \<Rightarrow> prompt \<Rightarrow> rat \<Rightarrow> rat \<Rightarrow> int \<Rightarrow> error + field list" where
  \<comment> \<open>The update that \<open>applyPromotionToPrompt\<close> builds at time \<open>now = Date.now()\<close>;
      \<open>toISOString\<close> throws a RangeError on an invalid end date.\<close>
  "promotionFields ps p discountPercentage durationHours now =
     (let actualDiscount = min discountPercentage 50;
          promotionPrice = Math_round (fmul (price p) (fsub 1 (percent actualDiscount)));
          actualDuration = min durationHours (maxPromotionDuration ps);
          endDate = timeClip (fadd (of_int now) (fmul (fmul (fmul actualDuration 60) 60) 1000))
      in case endDate of
           None \<Rightarrow> Inl (Error ''Invalid time value'')
         | Some t \<Rightarrow>
             Inr [Price (Some promotionPrice), On_promotion True,
                  Promotion_percentage actualDiscount, Promotion_end_date (Some t)])"

definition applyPromotionToPrompt ::
  "remote \<Rightarrow> promotionParams \<Rightarrow> string \<Rightarrow> rat \<Rightarrow> rat \<Rightarrow> world \<Rightarrow> (error + prompt) \<times> world" where
  "applyPromotionToPrompt r ps promptId discountPercentage durationHours w =
     (case getPrompt r promptId w of
        (Inl e, w') \<Rightarrow> (Inl e, w')
      | (Inr p, w') \<Rightarrow>
          if on_promotion p then (Inr p, w')
          else (case promotionFields ps p discountPercentage durationHours
                       (clock r (requests w')) of
                  Inl e \<Rightarrow> (Inl e, w')
                | Inr updateData \<Rightarrow> updatePrompt r promptId updateData w'))"

definition removalFields :: "prompt \<Rightarrow> field list" where
  \<comment> \<open>The update that \<open>removePromotionFromPrompt\<close> sends.\<close>
  "removalFields p =
     (let normalPrice =
            map_option Math_round
              (js_divide (price p) (fsub 1 (percent (promotion_percentage p))))
      in [Price normalPrice, On_promotion False, Promotion_percentage 0, Promotion_end_date None])"

definition removePromotionFromPrompt ::
  "remote \<Rightarrow> string \<Rightarrow> world \<Rightarrow> (error + prompt) \<times> world" where
  "removePromotionFromPrompt r promptId w =
     (case getPrompt r promptId w of
        (Inl e, w') \<Rightarrow> (Inl e, w')
      | (Inr p, w') \<Rightarrow>
          if \<not> on_promotion p then (Inr p, w')
          else updatePrompt r promptId (removalFields p) w')"

text \<open>
  The catalog's side of a PATCH, as the promotion service relies on it when it reads a
  listing back: each field of the body replaces the listing's field (a price that is not
  finite is sent as \<open>null\<close> and, like the two dates, leaves the fields modelled here alone).
\<close>

fun setField :: "field \<Rightarrow> prompt \<Rightarrow> prompt" where
  "setField (Price (Some x)) p = p\<lparr>price := x\<rparr>"
| "setField (Price None) p = p"
| "setField (Title t) p = p\<lparr>title := t\<rparr>"
| "setField (Description d) p = p\<lparr>description := d\<rparr>"
| "setField (Currently_testing b) p = p\<lparr>currently_testing := b\<rparr>"
| "setField (On_promotion b) p = p\<lparr>on_promotion := b\<rparr>"
| "setField (Promotion_percentage x) p = p\<lparr>promotion_percentage := x\<rparr>"
| "setField (Promotion_end_date d) p = p"
| "setField (Last_refresh_date d) p = p"

definition patched :: "field list \<Rightarrow> prompt \<Rightarrow> prompt" where
  "patched fs p = fold setField fs p"

subsection \<open>Dates\<close>

text \<open>
  A \<open>Date\<close> is its local wall-clock time in milliseconds since the local midnight of
  1 January 1970 (a Thursday), in a time zone whose offset does not change: \<open>setDate\<close> with
  a day beyond the month moves by whole days, \<open>setHours(h, 0, 0, 0)\<close> goes to hour \<open>h\<close>
  of the same day.
\<close>

definition msPerDay :: int where
  "msPerDay = 24 * 60 * 60 * 1000"

definition msPerHour :: int where
  "msPerHour = 60 * 60 * 1000"

definition getDay :: "int \<Rightarrow> int" where
  "getDay t = (t div msPerDay + 4) mod 7"

definition getHours :: "int \<Rightarrow> int" where
  "getHours t = (t div msPerHour) mod 24"

definition addDate :: "int \<Rightarrow> int \<Rightarrow> int" where
  \<comment> \<open>\<open>d.setDate(d.getDate() + n)\<close>\<close>
  "addDate t n = t + n * msPerDay"

definition setHours :: "int \<Rightarrow> int \<Rightarrow> int" where
  \<comment> \<open>\<open>d.setHours(h, 0, 0, 0)\<close>\<close>
  "setHours t h = (t div msPerDay) * msPerDay + h * msPerHour"

definition days :: "string list" where
  "days = [''Sunday'', ''Monday'', ''Tuesday'', ''Wednesday'', ''Thursday'', ''Friday'', ''Saturday'']"

fun indexOf :: "'a list \<Rightarrow> 'a \<Rightarrow> int" where
  "indexOf [] x = - 1"
| "indexOf (y # ys) x = (if y = x then 0 else (let i = indexOf ys x in if i = - 1 then - 1 else i + 1))"

definition getNextOccurrence :: "string \<Rightarrow> int \<Rightarrow> int \<Rightarrow> int" where
  \<comment> \<open>\<open>today\<close> is the \<open>new Date()\<close> of the source.\<close>
  "getNextOccurrence day hour today =
     (let dayIndex = indexOf days day
      in if dayIndex = - 1 then setHours (addDate today 1) hour
         else
           (let daysToAdd = dayIndex - getDay today;
                daysToAdd = (if daysToAdd \<le> 0 then daysToAdd + 7 else daysToAdd);
                daysToAdd = (if daysToAdd = 0 \<and> getHours today \<ge> hour then 7 else daysToAdd)
            in setHours (addDate today daysToAdd) hour))"

subsection \<open>Periods of low activity\<close>

record dataPoint =
  timestamp :: int
  visits :: "rat option"

record bucket =
  day :: string
  hour :: int
  count :: nat
  visits' :: rat

record period = bucket +
  avgVisits :: rat

text \<open>
  \<open>activityByHourDay\<close> is an object whose keys keep their insertion order: an association
  list. The key \<open>`${day}_${hour}`\<close> is modelled as the pair it is built from, which it
  determines (no day name holds an underscore).
\<close>

fun setProperty :: "'k \<Rightarrow> 'v \<Rightarrow> ('k \<times> 'v) list \<Rightarrow> ('k \<times> 'v) list" where
  \<comment> \<open>\<open>obj[key] = v\<close>: in place for a key that exists, at the end for a new one.\<close>
  "setProperty k v [] = [(k, v)]"
| "setProperty k v ((k', v') # kvs) =
     (if k' = k then (k, v) # kvs else (k', v') # setProperty k v kvs)"

definition keyOf :: "dataPoint \<Rightarrow> string \<times> int" where
  "keyOf dataPoint =
     (let date = timestamp dataPoint
      in (days ! nat (getDay date), getHours date))"

definition addDataPoint ::
  "dataPoint \<Rightarrow> ((string \<times> int) \<times> bucket) list \<Rightarrow> ((string \<times> int) \<times> bucket) list" where
  \<comment> \<open>One turn of the loop over \<open>analytics\<close>.\<close>
  "addDataPoint dataPoint activityByHourDay =
     (let key = keyOf dataPoint;
          entry = (case map_of activityByHourDay key of
                     None \<Rightarrow> \<lparr> day = fst key, hour = snd key, count = 0, visits' = 0 \<rparr>
                   | Some e \<Rightarrow> e)
      in setProperty key
           (entry\<lparr> count := count entry + 1,
                   visits' := visits' entry + (case visits dataPoint of None \<Rightarrow> 0 | Some v \<Rightarrow> v) \<rparr>)
           activityByHourDay)"

definition withAverage :: "bucket \<Rightarrow> period" where
  \<comment> \<open>\<open>entry.avgVisits = entry.visits / entry.count\<close>; the loop never leaves a count of 0.\<close>
  "withAverage e =
     \<lparr> day = day e, hour = hour e, count = count e, visits' = visits' e,
       avgVisits = visits' e / of_nat (count e) \<rparr>"

definition activityByHourDay :: "dataPoint list \<Rightarrow> ((string \<times> int) \<times> bucket) list" where
  "activityByHourDay analytics = fold addDataPoint analytics []"

definition filteredPeriods :: "dataPoint list \<Rightarrow> period list" where
  "filteredPeriods analytics =
     filter (\<lambda>entry. hour entry \<ge> 7 \<and> hour entry \<le> 23)
       (map (withAverage \<circ> snd) (activityByHourDay analytics))"

definition findLowActivityPeriods :: "dataPoint list \<Rightarrow> period list" where
  "findLowActivityPeriods analytics =
     take 5 (js_sort (\<lambda>a b. avgVisits a - avgVisits b) (filteredPeriods analytics))"

section \<open>Sample collaborators\<close>

text \<open>
  Concrete collaborators on which the theorems are instantiated: an environment with no
  variable set, a catalog that keeps what it is sent, and a remote side that is down.
\<close>

definition env0 :: process_env where
  "env0 = \<lparr> MIN_PROMPT_PRICE = None, MAX_PROMPT_PRICE = None \<rparr>"

definition listing :: "string \<Rightarrow> rat \<Rightarrow> prompt" where
  "listing i x =
     \<lparr> title = ''Title'', description = ''Text'', id' = i, price = x, conversion_rate = 0,
       views_last_hour = 0, total_views = 0, currently_testing = False,
       price_changed_recently = False, on_promotion = False, promotion_percentage = 0,
       creation_date = None \<rparr>"

definition catalog :: "request list \<Rightarrow> string \<Rightarrow> prompt" where
  \<comment> \<open>Every listing starts at price 100 and holds the updates sent to it so far.\<close>
  "catalog h i =
     fold (\<lambda>q p. case q of PATCH_prompt j fs \<Rightarrow> if j = i then patched fs p else p | _ \<Rightarrow> p)
       h (listing i 100)"

definition variations0 :: variations where
  "variations0 =
     \<lparr> titles = Some [''A'', ''B'', ''C''], descriptions = Some [''a'', ''b'', ''c''],
       tested_count = Some 3,
       results = Some [\<lparr> title = ''A'', description = ''a'', conversion = 3 \<rparr>,
                       \<lparr> title = ''B'', description = ''b'', conversion = 5 \<rparr>,
                       \<lparr> title = ''C'', description = ''c'', conversion = 5 \<rparr>] \<rparr>"

definition variations1 :: variations where
  \<comment> \<open>A single variant, tested, with its result.\<close>
  "variations1 =
     \<lparr> titles = Some [''A''], descriptions = Some [''a''], tested_count = Some 1,
       results = Some [\<lparr> title = ''A'', description = ''a'', conversion = 3 \<rparr>] \<rparr>"

definition remote_ok :: remote where
  "remote_ok =
     \<lparr> patch_prompt = (\<lambda>h i fs. Inr (patched fs (catalog h i))),
       get_prompt = (\<lambda>h i. Inr (catalog h i)),
       get_prompts = (\<lambda>h. Inr [catalog h ''p1'']),
       get_performance = (\<lambda>h i. Inr \<lparr> views_last_7_days = 200, perf_conversion_rate = 1 / 100 \<rparr>),
       retrieve_variations = (\<lambda>h i. Inr (Some variations0)),
       long_term_trends = (\<lambda>h i. Inr (Some \<lparr> price_elasticity = 2 / 10 \<rparr>)),
       send_email = (\<lambda>h n. None),
       clock = (\<lambda>h. 0) \<rparr>"


definition world0 :: world where
  "world0 = \<lparr> requests = [], notifications = [], timers = [] \<rparr>"

definition hot :: "string \<Rightarrow> rat \<Rightarrow> prompt" where
  "hot i x = (listing i x)\<lparr>conversion_rate := 15 / 100, views_last_hour := 25\<rparr>"

definition stable :: "string \<Rightarrow> prompt" where
  "stable i = (listing i 100)\<lparr>total_views := 1000\<rparr>"

definition bestB :: result where
  "bestB = \<lparr> title = ''B'', description = ''b'', conversion = 5 \<rparr>"

definition improved :: "string \<Rightarrow> action" where
  "improved i = Improve_content i ''Title'' ''Title - Version Optimisee'' ''Text''
             ''Text Cette version amelioree offre des resultats plus precis et personnalises.'' 0"

text \<open>
  The buckets as the specification describes them, to compare the loop with: the data points
  of a (day, hour) key, the number and the sum of their visits, and their average.
\<close>

definition visitsOf :: "dataPoint \<Rightarrow> rat" where
  "visitsOf dataPoint = (case visits dataPoint of None \<Rightarrow> 0 | Some v \<Rightarrow> v)"

definition pointsAt :: "dataPoint list \<Rightarrow> string \<times> int \<Rightarrow> dataPoint list" where
  "pointsAt analytics k = filter (\<lambda>dataPoint. keyOf dataPoint = k) analytics"

definition averageAt :: "dataPoint list \<Rightarrow> string \<times> int \<Rightarrow> rat" where
  "averageAt analytics k =
     sum_list (map visitsOf (pointsAt analytics k)) / of_nat (length (pointsAt analytics k))"

definition bucketAt :: "dataPoint list \<Rightarrow> string \<times> int \<Rightarrow> bucket" where
  "bucketAt analytics k =
     \<lparr> day = fst k, hour = snd k, count = length (pointsAt analytics k),
       visits' = sum_list (map visitsOf (pointsAt analytics k)) \<rparr>"

text \<open>The key of a period, the periods before the hours are filtered, and a sample series.\<close>

definition periodKey :: "period \<Rightarrow> string \<times> int" where
  "periodKey e = (day e, hour e)"

definition allPeriods :: "dataPoint list \<Rightarrow> period list" where
  "allPeriods analytics = map (withAverage \<circ> snd) (activityByHourDay analytics)"

definition series1 :: "dataPoint list" where
  \<comment> \<open>A Monday from 9h to 14h, a point in the night, and 9h again a week later.\<close>
  "series1 =
     [\<lparr> timestamp = 378000000, visits = Some 60 \<rparr>,
      \<lparr> timestamp = 356400000, visits = Some 1 \<rparr>,
      \<lparr> timestamp = 381600000, visits = Some 50 \<rparr>,
      \<lparr> timestamp = 385200000, visits = Some 40 \<rparr>,
      \<lparr> timestamp = 388800000, visits = Some 30 \<rparr>,
      \<lparr> timestamp = 392400000, visits = Some 20 \<rparr>,
      \<lparr> timestamp = 396000000, visits = Some 10 \<rparr>,
      \<lparr> timestamp = 984600000, visits = None \<rparr>]"

definition catalogFrom :: "rat \<Rightarrow> request list \<Rightarrow> string \<Rightarrow> prompt" where
  \<comment> \<open>Like \<open>catalog\<close>, every listing starting at the price \<open>x\<close>.\<close>
  "catalogFrom x h i =
     fold (\<lambda>q p. case q of PATCH_prompt j fs \<Rightarrow> if j = i then patched fs p else p | _ \<Rightarrow> p)
       h (listing i x)"

definition shop :: "rat \<Rightarrow> remote" where
  "shop x =
     remote_ok\<lparr> patch_prompt := (\<lambda>h i fs. Inr (patched fs (catalogFrom x h i))),
                get_prompt := (\<lambda>h i. Inr (catalogFrom x h i)) \<rparr>"




section \<open>Requests and records of the hourly run\<close>

lemma updatePromptPrice_requests:
  "updatePromptPrice r ev i p w = (x, w') \<Longrightarrow> requests w' = requests w @ [PATCH_prompt i [Price (Some (clampedPrice ev p))]]"
  by (auto simp: updatePromptPrice_def call_def Let_def)

lemma updatePrompt_requests:
  "updatePrompt r i fs w = (x, w') \<Longrightarrow> requests w' = requests w @ [PATCH_prompt i fs]"
  by (auto simp: updatePrompt_def call_def)

lemma hourlyStep_requests:
  assumes "hourlyStep r ev eng p w = (x, w')"
  shows "\<exists>qs. requests w' = requests w @ qs \<and> (\<forall>q\<in>set qs. \<not> currently_testing p \<and> (\<exists>y. q = PATCH_prompt (id' p) [Price (Some y)]))"
  using assms
  by (auto simp: hourlyStep_def Let_def split: if_splits prod.splits sum.splits dest!: updatePromptPrice_requests)

lemma hourlyLoop_requests:
  assumes "hourlyLoop r ev eng ps acc w = (x, w')"
  shows "\<exists>qs. requests w' = requests w @ qs \<and> (\<forall>q\<in>set qs. \<exists>p\<in>set ps. \<not> currently_testing p \<and> (\<exists>y. q = PATCH_prompt (id' p) [Price (Some y)]))"
  using assms
proof (induction ps arbitrary: acc w)
  case Nil then show ?case by simp
next
  case (Cons p ps)
  obtain y w1 where s: "hourlyStep r ev eng p w = (y, w1)" by (cases "hourlyStep r ev eng p w")
  from hourlyStep_requests[OF s] obtain qs1 where q1: "requests w1 = requests w @ qs1"
    "\<forall>q\<in>set qs1. \<not> currently_testing p \<and> (\<exists>y. q = PATCH_prompt (id' p) [Price (Some y)])" by blast
  show ?case
  proof (cases y)
    case (Inl e)
    with Cons.prems s have "w' = w1" by simp
    with q1 show ?thesis by auto
  next
    case (Inr vs)
    with Cons.prems s have "hourlyLoop r ev eng ps (acc @ vs) w1 = (x, w')" by simp
    from Cons.IH[OF this] obtain qs2 where q2: "requests w' = requests w1 @ qs2"
      "\<forall>q\<in>set qs2. \<exists>p\<in>set ps. \<not> currently_testing p \<and> (\<exists>y. q = PATCH_prompt (id' p) [Price (Some y)])" by blast
    have "requests w' = requests w @ (qs1 @ qs2)" using q1 q2 by simp
    moreover have "\<forall>q\<in>set (qs1 @ qs2). \<exists>p\<in>set (p # ps). \<not> currently_testing p \<and> (\<exists>y. q = PATCH_prompt (id' p) [Price (Some y)])"
      using q1(2) q2(2) by auto
    ultimately show ?thesis by blast
  qed
qed

lemma sendEmail_requests: "sendEmail r n w = (x, w') \<Longrightarrow> requests w' = requests w @ [Send_email n] \<and> notifications w' = notifications w"
  by (auto simp: sendEmail_def call_def split: option.splits)

lemma sendNotification_result:
  "\<exists>b w'. sendNotification r n w = (Inr b, w') \<and> requests w' = requests w @ [Send_email n] \<and> notifications w' = notifications w @ [n]"
proof -
  obtain x w1 where s: "sendEmail r n (w\<lparr>notifications := notifications w @ [n]\<rparr>) = (x, w1)"
    by (cases "sendEmail r n (w\<lparr>notifications := notifications w @ [n]\<rparr>)")
  from sendEmail_requests[OF s] show ?thesis using s
    by (cases x) (auto simp: sendNotification_def)
qed

lemma hourlyOptimization_cases:
  "(\<exists>us w'. hourlyBody r ev eng stats w = (Inr us, w') \<and> hourlyOptimization r ev eng stats w = (Inr us, w'))
   \<or> (\<exists>e w' w'' n. hourlyBody r ev eng stats w = (Inl e, w') \<and> hourlyOptimization r ev eng stats w = (Inr [], w'')
        \<and> requests w'' = requests w' @ [Send_email n] \<and> notifications w'' = notifications w' @ [n] \<and> type' n = ''error'')"
proof -
  obtain x w' where b: "hourlyBody r ev eng stats w = (x, w')" by (cases "hourlyBody r ev eng stats w")
  show ?thesis
  proof (cases x)
    case (Inr us) with b show ?thesis by (simp add: hourlyOptimization_def)
  next
    case (Inl e)
    let ?n = "\<lparr> type' = ''error'', subject = ''Erreur d'optimisation horaire'',
                    message = ''Une erreur est survenue lors de l'optimisation horaire: '' @ error_message e,
                    attachment = None \<rparr>"
    from sendNotification_result[of r ?n w'] obtain bb w'' where
      "sendNotification r ?n w' = (Inr bb, w'')" "requests w'' = requests w' @ [Send_email ?n]" "notifications w'' = notifications w' @ [?n]"
      by blast
    with b Inl show ?thesis by (simp add: hourlyOptimization_def)
  qed
qed

lemma hourlyStep_records:
  assumes "hourlyStep r ev eng p w = (Inr us, w')" "u \<in> set us"
  shows "\<not> currently_testing p \<and> u_id u = id' p \<and> oldPrice u = price p
       \<and> ((reason u = ''increase_high_conversion'' \<and> newPrice u = increasePrice eng p \<and> price p + 1 < newPrice u)
          \<or> (reason u = ''decrease_low_conversion'' \<and> newPrice u = decreasePrice eng p \<and> newPrice u < price p - 1))"
  using assms
  by (auto simp: hourlyStep_def Let_def split: if_splits prod.splits sum.splits)

lemma hourlyLoop_records:
  assumes "hourlyLoop r ev eng ps acc w = (Inr us, w')" "u \<in> set us"
  shows "u \<in> set acc \<or> (\<exists>p\<in>set ps. \<exists>w1 w2 vs. hourlyStep r ev eng p w1 = (Inr vs, w2) \<and> u \<in> set vs)"
  using assms
proof (induction ps arbitrary: acc w)
  case Nil then show ?case by simp
next
  case (Cons p ps)
  obtain x w1 where s: "hourlyStep r ev eng p w = (x, w1)" by (cases "hourlyStep r ev eng p w")
  show ?case
  proof (cases x)
    case (Inl e) with Cons.prems s show ?thesis by simp
  next
    case (Inr vs)
    with Cons.prems s have "hourlyLoop r ev eng ps (acc @ vs) w1 = (Inr us, w')" by simp
    from Cons.IH[OF this Cons.prems(2)] show ?thesis using s Inr by auto
  qed
qed

lemma hourlyStep_testing: "currently_testing p \<Longrightarrow> hourlyStep r ev eng p w = (Inr [], w)"
  by (simp add: hourlyStep_def)

lemma hourlyLoop_filter:
  "hourlyLoop r ev eng (filter (\<lambda>p. \<not> currently_testing p) ps) acc w = hourlyLoop r ev eng ps acc w"
  by (induction ps arbitrary: acc w) (auto simp: hourlyStep_testing split: prod.splits sum.splits)

section \<open>The shape of the daily and weekly runs\<close>

lemma collectActions_append:
  assumes "collectActions f xs acc w = (Inr as, w')"
  shows "\<exists>new. as = acc @ new \<and> length new \<le> length xs
           \<and> (\<forall>a\<in>set new. \<exists>x\<in>set xs. \<exists>w1 w2. f x w1 = (Inr (Some a), w2))"
  using assms
proof (induction xs arbitrary: acc w)
  case Nil then show ?case by simp
next
  case (Cons x xs)
  obtain y w1 where s: "f x w = (y, w1)" by (cases "f x w")
  show ?case
  proof (cases y)
    case (Inl e) with Cons.prems s show ?thesis by simp
  next
    case (Inr o1)
    show ?thesis
    proof (cases o1)
      case None
      with Cons.prems s Inr have "collectActions f xs acc w1 = (Inr as, w')" by simp
      from Cons.IH[OF this] obtain new where "as = acc @ new" "length new \<le> length xs"
        "\<forall>a\<in>set new. \<exists>x\<in>set xs. \<exists>w1 w2. f x w1 = (Inr (Some a), w2)" by blast
      then show ?thesis by auto
    next
      case (Some a)
      with Cons.prems s Inr have "collectActions f xs (acc @ [a]) w1 = (Inr as, w')" by simp
      from Cons.IH[OF this] obtain new where n: "as = (acc @ [a]) @ new" "length new \<le> length xs"
        "\<forall>a\<in>set new. \<exists>x\<in>set xs. \<exists>w1 w2. f x w1 = (Inr (Some a), w2)" by blast
      have "as = acc @ (a # new)" using n(1) by simp
      moreover have "length (a # new) \<le> length (x # xs)" using n(2) by simp
      moreover have "\<forall>b\<in>set (a # new). \<exists>z\<in>set (x # xs). \<exists>w1 w2. f z w1 = (Inr (Some b), w2)"
        using n(3) s Inr Some by auto
      ultimately show ?thesis by blast
    qed
  qed
qed

lemma applyBest_type:
  "applyBest r p rs w = (Inr (Some a), w') \<Longrightarrow> action_type a = ''apply_best_variation'' \<and> action_promptId a = id' p"
  by (auto simp: applyBest_def split: list.splits prod.splits sum.splits)

lemma testNext_type:
  "testNext r p v ts ds w = (Inr (Some a), w') \<Longrightarrow> action_type a = ''start_ab_test'' \<and> action_promptId a = id' p"
  by (auto simp: testNext_def Let_def split: prod.splits sum.splits)

lemma startABTest_type:
  "startABTest r p w = (Inr (Some a), w') \<Longrightarrow>
     (action_type a = ''apply_best_variation'' \<or> action_type a = ''start_ab_test'') \<and> action_promptId a = id' p"
  by (auto simp: startABTest_def split: prod.splits sum.splits option.splits if_splits
           dest: applyBest_type testNext_type)

lemma improvePromptContent_type:
  "improvePromptContent r p w = (Inr (Some a), w') \<Longrightarrow> action_type a = ''improve_content'' \<and> action_promptId a = id' p"
  by (auto simp: improvePromptContent_def Let_def split: prod.splits sum.splits)

lemma optimizeLongTermPrice_type:
  "optimizeLongTermPrice r ev eng p w = (Inr (Some a), w') \<Longrightarrow>
     (action_type a = ''optimize_long_term_price_up'' \<or> action_type a = ''optimize_long_term_price_down'')
     \<and> action_promptId a = id' p"
  by (auto simp: optimizeLongTermPrice_def Let_def split: prod.splits sum.splits option.splits if_splits)

lemma dailyBody_shape:
  assumes "dailyBody r ev eng (Array ps) w = (Inr as, w')"
  shows "\<exists>n1 n2 n3. as = n1 @ n2 @ n3 \<and> length n1 \<le> 2 \<and> length n2 \<le> 3
      \<and> (\<forall>a\<in>set n1. (action_type a = ''apply_best_variation'' \<or> action_type a = ''start_ab_test'')
             \<and> (\<exists>p\<in>set (promptsForTesting eng ps). action_promptId a = id' p))
      \<and> (\<forall>a\<in>set n2. action_type a = ''improve_content''
             \<and> (\<exists>p\<in>set (lowPerformingPrompts eng ps). action_promptId a = id' p))
      \<and> (\<forall>a\<in>set n3. (action_type a = ''optimize_long_term_price_up'' \<or> action_type a = ''optimize_long_term_price_down'')
             \<and> (\<exists>p\<in>set (stablePricePrompts eng ps). action_promptId a = id' p))"
proof -
  obtain x1 w1 where c1: "collectActions (startABTest r) (take 2 (promptsForTesting eng ps)) [] w = (x1, w1)"
    by (cases "collectActions (startABTest r) (take 2 (promptsForTesting eng ps)) [] w")
  with assms obtain a1 where x1: "x1 = Inr a1" by (cases x1) (auto simp: dailyBody_def)
  obtain x2 w2 where c2: "collectActions (improvePromptContent r) (take 3 (lowPerformingPrompts eng ps)) a1 w1 = (x2, w2)"
    by (cases "collectActions (improvePromptContent r) (take 3 (lowPerformingPrompts eng ps)) a1 w1")
  with assms c1 x1 obtain a2 where x2: "x2 = Inr a2" by (cases x2) (auto simp: dailyBody_def)
  have c3: "collectActions (optimizeLongTermPrice r ev eng) (stablePricePrompts eng ps) a2 w2 = (Inr as, w')"
    using assms c1 x1 c2 x2 by (simp add: dailyBody_def)
  from collectActions_append[OF c1[unfolded x1]] obtain n1 where n1: "a1 = n1" "length n1 \<le> length (take 2 (promptsForTesting eng ps))"
    "\<forall>a\<in>set n1. \<exists>x\<in>set (take 2 (promptsForTesting eng ps)). \<exists>w1 w2. startABTest r x w1 = (Inr (Some a), w2)" by auto
  from collectActions_append[OF c2[unfolded x2]] obtain n2 where n2: "a2 = a1 @ n2" "length n2 \<le> length (take 3 (lowPerformingPrompts eng ps))"
    "\<forall>a\<in>set n2. \<exists>x\<in>set (take 3 (lowPerformingPrompts eng ps)). \<exists>w1 w2. improvePromptContent r x w1 = (Inr (Some a), w2)" by auto
  from collectActions_append[OF c3] obtain n3 where n3: "as = a2 @ n3"
    "\<forall>a\<in>set n3. \<exists>x\<in>set (stablePricePrompts eng ps). \<exists>w1 w2. optimizeLongTermPrice r ev eng x w1 = (Inr (Some a), w2)" by auto
  have "as = n1 @ n2 @ n3" using n1(1) n2(1) n3(1) by simp
  moreover have "length n1 \<le> 2" using n1(2) by simp
  moreover have "length n2 \<le> 3" using n2(2) by simp
  moreover have "\<forall>a\<in>set n1. (action_type a = ''apply_best_variation'' \<or> action_type a = ''start_ab_test'')
             \<and> (\<exists>p\<in>set (promptsForTesting eng ps). action_promptId a = id' p)"
    using n1(3) by (meson startABTest_type in_set_takeD)
  moreover have "\<forall>a\<in>set n2. action_type a = ''improve_content''
             \<and> (\<exists>p\<in>set (lowPerformingPrompts eng ps). action_promptId a = id' p)"
    using n2(3) by (meson improvePromptContent_type in_set_takeD)
  moreover have "\<forall>a\<in>set n3. (action_type a = ''optimize_long_term_price_up'' \<or> action_type a = ''optimize_long_term_price_down'')
             \<and> (\<exists>p\<in>set (stablePricePrompts eng ps). action_promptId a = id' p)"
    using n3(2) by (meson optimizeLongTermPrice_type)
  ultimately show ?thesis by blast
qed

lemma dailyOptimization_cases:
  "(\<exists>us w'. dailyBody r ev eng stats w = (Inr us, w') \<and> dailyOptimization r ev eng stats w = (Inr us, w'))
   \<or> (\<exists>e w' w'' n. dailyBody r ev eng stats w = (Inl e, w') \<and> dailyOptimization r ev eng stats w = (Inr [], w'')
        \<and> requests w'' = requests w' @ [Send_email n] \<and> notifications w'' = notifications w' @ [n] \<and> type' n = ''error'')"
proof -
  obtain x w' where b: "dailyBody r ev eng stats w = (x, w')" by (cases "dailyBody r ev eng stats w")
  show ?thesis
  proof (cases x)
    case (Inr us) with b show ?thesis by (simp add: dailyOptimization_def)
  next
    case (Inl e)
    let ?n = "\<lparr> type' = ''error'', subject = ''Erreur d'optimisation quotidienne'',
                    message = ''Une erreur est survenue lors de l'optimisation quotidienne: '' @ error_message e,
                    attachment = None \<rparr>"
    from sendNotification_result[of r ?n w'] obtain bb w'' where
      "sendNotification r ?n w' = (Inr bb, w'')" "requests w'' = requests w' @ [Send_email ?n]" "notifications w'' = notifications w' @ [?n]"
      by blast
    with b Inl show ?thesis by (simp add: dailyOptimization_def)
  qed
qed


section \<open>What the API client writes\<close>

lemma Math_round_eqI: "of_int k \<le> x + 1 / 2 \<Longrightarrow> x + 1 / 2 < of_int k + 1 \<Longrightarrow> Math_round x = of_int k"
  unfolding Math_round_def by (simp add: floor_unique)

lemma Math_round_Ints: "Math_round x \<in> \<int>"
  by (simp add: Math_round_def)

lemma half_not_int: "(25 / 2 :: rat) \<notin> \<int>"
proof
  assume "(25 / 2 :: rat) \<in> \<int>"
  then obtain k :: int where "(25 / 2 :: rat) = of_int k" by (auto elim: Ints_cases)
  then have "(of_int 25 :: rat) = of_int (2 * k)" by simp
  then have "(25::int) = 2 * k" by (simp only: of_int_eq_iff)
  then show False by presburger
qed

lemmas eval_defs = hourlyOptimization_def hourlyBody_def hourlyStep_def OptimizationEngine_def env0_def
       listing_def increasePrice_def decreasePrice_def or_default_def updatePromptPrice_def call_def clampedPrice_def
       api_minPrice_def api_maxPrice_def world0_def Let_def
       sendNotification_def sendEmail_def

lemma hourlyStep_written:
  assumes "hourlyStep r ev eng p w = (Inr us, w')" "u \<in> set us"
  shows "us = [u] \<and> requests w' = requests w @ [PATCH_prompt (u_id u) [Price (Some (clampedPrice ev (newPrice u)))]]"
  using assms
  by (auto simp: hourlyStep_def Let_def split: if_splits prod.splits sum.splits dest!: updatePromptPrice_requests)

text \<open>
  C10, as stated, fails: with \<open>MIN_PROMPT_PRICE=12.5\<close> the client writes 12.5 for the
  price 3, which is no integer.
\<close>

theorem updatePromptPrice_fraction_counterexample:
  "requests (snd (updatePromptPrice remote_ok \<lparr> MIN_PROMPT_PRICE = Some (25 / 2), MAX_PROMPT_PRICE = None \<rparr> ''p1'' 3 world0))
     = [PATCH_prompt ''p1'' [Price (Some (25 / 2))]]
   \<and> (25 / 2 :: rat) \<notin> \<int>"
proof -
  have "Math_round 3 = 3" using Math_round_eqI[of 3 3] by simp
  then show ?thesis
    by (simp add: Let_def updatePromptPrice_def call_def clampedPrice_def api_minPrice_def api_maxPrice_def
          or_default_def world0_def half_not_int)
qed

text \<open>
  C10, amended: for every price \<open>p\<close> the client's \<open>updatePromptPrice\<close> writes
  \<open>min (max (round p) minPrice) maxPrice\<close>; the written price lies within
  \<open>[minPrice, maxPrice]\<close> when \<open>minPrice \<le> maxPrice\<close> and is an integer when both bounds
  are integers (as the defaults 10 and 150 are); and for a record of the hourly run the
  written price is the clamped rounding of the recorded \<open>newPrice\<close>, so the two may differ.
\<close>

theorem updatePromptPrice_writes_clamped:
  "requests (snd (updatePromptPrice r ev i p w))
     = requests w @ [PATCH_prompt i [Price (Some (min (max (Math_round p) (api_minPrice ev)) (api_maxPrice ev)))]]
   \<and> (api_minPrice ev \<le> api_maxPrice ev \<longrightarrow>
         api_minPrice ev \<le> clampedPrice ev p \<and> clampedPrice ev p \<le> api_maxPrice ev)
   \<and> (api_minPrice ev \<in> \<int> \<and> api_maxPrice ev \<in> \<int> \<longrightarrow> clampedPrice ev p \<in> \<int>)
   \<and> (\<forall>eng st w' u. hourlyStep r ev eng st w = (Inr [u], w') \<longrightarrow>
         requests w' = requests w @ [PATCH_prompt (u_id u) [Price (Some (clampedPrice ev (newPrice u)))]])"
proof -
  have a: "requests (snd (updatePromptPrice r ev i p w))
     = requests w @ [PATCH_prompt i [Price (Some (min (max (Math_round p) (api_minPrice ev)) (api_maxPrice ev)))]]"
    by (simp add: Let_def updatePromptPrice_def call_def clampedPrice_def)
  have b: "api_minPrice ev \<le> api_maxPrice ev \<longrightarrow>
         api_minPrice ev \<le> clampedPrice ev p \<and> clampedPrice ev p \<le> api_maxPrice ev"
    by (simp add: clampedPrice_def)
  have c: "api_minPrice ev \<in> \<int> \<and> api_maxPrice ev \<in> \<int> \<longrightarrow> clampedPrice ev p \<in> \<int>"
    by (simp add: clampedPrice_def min_def max_def Math_round_Ints)
  have d: "\<forall>eng st w' u. hourlyStep r ev eng st w = (Inr [u], w') \<longrightarrow>
         requests w' = requests w @ [PATCH_prompt (u_id u) [Price (Some (clampedPrice ev (newPrice u)))]]"
  proof (intro allI impI)
    fix eng st w' u
    assume h: "hourlyStep r ev eng st w = (Inr [u], w')"
    from hourlyStep_written[OF h, of u] show
      "requests w' = requests w @ [PATCH_prompt (u_id u) [Price (Some (clampedPrice ev (newPrice u)))]]"
      by simp
  qed
  from a b c d show ?thesis by (intro conjI)
qed

theorem updatePromptPrice_writes_clamped_witness:
  "api_minPrice env0 \<le> api_maxPrice env0 \<and> api_minPrice env0 \<in> \<int> \<and> api_maxPrice env0 \<in> \<int>
   \<and> clampedPrice env0 (231 / 2) = 116 \<and> clampedPrice env0 (231 / 2) \<in> \<int>
   \<and> hourlyStep remote_ok env0 (OptimizationEngine env0)
        ((listing ''p1'' 110)\<lparr>conversion_rate := 15 / 100, views_last_hour := 25\<rparr>) world0
      = (Inr [\<lparr> u_id = ''p1'', oldPrice = 110, newPrice = 231 / 2, reason = ''increase_high_conversion'' \<rparr>],
         world0\<lparr>requests := [PATCH_prompt ''p1'' [Price (Some 116)]]\<rparr>)
   \<and> requests (world0\<lparr>requests := [PATCH_prompt ''p1'' [Price (Some 116)]]\<rparr>)
      = requests world0 @ [PATCH_prompt ''p1'' [Price (Some (clampedPrice env0 (231 / 2)))]]"
proof -
  have r: "Math_round (231 / 2) = 116" using Math_round_eqI[of 116 "231 / 2"] by simp
  have b: "api_minPrice env0 = 10" "api_maxPrice env0 = 150"
    by (simp_all add: api_minPrice_def api_maxPrice_def env0_def or_default_def)
  have c: "clampedPrice env0 (231 / 2) = 116" by (simp add: clampedPrice_def b r)
  have s: "hourlyStep remote_ok env0 (OptimizationEngine env0)
        ((listing ''p1'' 110)\<lparr>conversion_rate := 15 / 100, views_last_hour := 25\<rparr>) world0
      = (Inr [\<lparr> u_id = ''p1'', oldPrice = 110, newPrice = 231 / 2, reason = ''increase_high_conversion'' \<rparr>],
         world0\<lparr>requests := [PATCH_prompt ''p1'' [Price (Some 116)]]\<rparr>)"
    by (simp add: eval_defs remote_ok_def r)
  from updatePromptPrice_writes_clamped[of remote_ok env0 "''p1''" "231 / 2" world0] s b c
  show ?thesis by simp
qed

section \<open>Price changes of the hourly run\<close>

text \<open>
  C2, as stated, fails: a listing priced 22, below the minimum of 25, with a high
  conversion rate is raised to 23.1, which is recorded and is still below the minimum.
\<close>

theorem hourly_increase_below_minimum_counterexample:
  "fst (hourlyOptimization remote_ok env0 (OptimizationEngine env0)
      (Array [(listing ''p1'' 22)\<lparr>conversion_rate := 15 / 100, views_last_hour := 25\<rparr>]) world0)
   = Inr [\<lparr> u_id = ''p1'', oldPrice = 22, newPrice = 231 / 10, reason = ''increase_high_conversion'' \<rparr>]
   \<and> \<not> minPromptPrice (OptimizationEngine env0) \<le> 231 / 10"
proof -
  have r: "Math_round (231 / 10) = 23" using Math_round_eqI[of 23 "231 / 10"] by simp
  show ?thesis by (simp add: eval_defs remote_ok_def r)
qed

lemma hourlyOptimization_records:
  assumes "fst (hourlyOptimization r ev eng stats w) = Inr us" "u \<in> set us"
  shows "\<exists>ps. stats = Array ps \<and> (\<exists>p\<in>set ps. \<exists>w1 w2 vs. hourlyStep r ev eng p w1 = (Inr vs, w2) \<and> u \<in> set vs)"
proof -
  from hourlyOptimization_cases[of r ev eng stats w] assms
  obtain w' where b: "hourlyBody r ev eng stats w = (Inr us, w')" by auto
  then obtain ps where ps: "stats = Array ps" "hourlyLoop r ev eng ps [] w = (Inr us, w')"
    by (cases stats) (auto simp: hourlyBody_def)
  from hourlyLoop_records[OF ps(2) assms(2)] ps(1) show ?thesis by simp
qed

text \<open>
  C2, amended: every record of the hourly run is an increase or a decrease; an increase has
  \<open>oldPrice + 1 < newPrice \<le> maxPrice\<close>, a decrease has
  \<open>minPrice \<le> newPrice < oldPrice - 1\<close>; and the other bound holds for the new price
  whenever it held for the old one.
\<close>

theorem hourly_price_changes_bounded:
  assumes "fst (hourlyOptimization r ev eng stats w) = Inr us" and "u \<in> set us"
  shows "(reason u = ''increase_high_conversion'' \<or> reason u = ''decrease_low_conversion'')
       \<and> (reason u = ''increase_high_conversion'' \<longrightarrow>
            oldPrice u + 1 < newPrice u \<and> newPrice u \<le> maxPromptPrice eng
            \<and> (minPromptPrice eng \<le> oldPrice u \<longrightarrow> minPromptPrice eng \<le> newPrice u))
       \<and> (reason u = ''decrease_low_conversion'' \<longrightarrow>
            newPrice u < oldPrice u - 1 \<and> minPromptPrice eng \<le> newPrice u
            \<and> (oldPrice u \<le> maxPromptPrice eng \<longrightarrow> newPrice u \<le> maxPromptPrice eng))"
proof -
  from hourlyOptimization_records[OF assms] obtain p w1 w2 vs where
    s: "hourlyStep r ev eng p w1 = (Inr vs, w2)" "u \<in> set vs" by blast
  from hourlyStep_records[OF s] show ?thesis
    by (auto simp: increasePrice_def decreasePrice_def)
qed

theorem hourly_price_changes_bounded_witness:
  "fst (hourlyOptimization remote_ok env0 (OptimizationEngine env0) (Array [hot ''p1'' 100]) world0)
     = Inr [\<lparr> u_id = ''p1'', oldPrice = 100, newPrice = 105, reason = ''increase_high_conversion'' \<rparr>]
   \<and> (100::rat) + 1 < 105 \<and> (105::rat) \<le> maxPromptPrice (OptimizationEngine env0)
   \<and> minPromptPrice (OptimizationEngine env0) \<le> 100 \<and> minPromptPrice (OptimizationEngine env0) \<le> 105"
proof -
  let ?u = "\<lparr> u_id = ''p1'', oldPrice = 100, newPrice = 105, reason = ''increase_high_conversion'' \<rparr>"
  have r: "Math_round 105 = 105" using Math_round_eqI[of 105 105] by simp
  have e: "fst (hourlyOptimization remote_ok env0 (OptimizationEngine env0) (Array [hot ''p1'' 100]) world0) = Inr [?u]"
    by (simp add: eval_defs remote_ok_def r hot_def)
  have m: "?u \<in> set [?u]" by simp
  from hourly_price_changes_bounded[OF e m] e show ?thesis
    by (simp add: OptimizationEngine_def env0_def or_default_def)
qed

lemma hourlyOptimization_requests:
  assumes "PATCH_prompt i fs \<in> set (requests (snd (hourlyOptimization r ev eng (Array ps) w)))"
  shows "PATCH_prompt i fs \<in> set (requests w) \<or> (\<exists>p\<in>set ps. \<not> currently_testing p \<and> id' p = i)"
proof -
  obtain x w1 where l: "hourlyLoop r ev eng ps [] w = (x, w1)" by (cases "hourlyLoop r ev eng ps [] w")
  from hourlyLoop_requests[OF l] obtain qs where q: "requests w1 = requests w @ qs"
    "\<forall>q\<in>set qs. \<exists>p\<in>set ps. \<not> currently_testing p \<and> (\<exists>y. q = PATCH_prompt (id' p) [Price (Some y)])" by blast
  have b: "hourlyBody r ev eng (Array ps) w = (x, w1)" using l by (simp add: hourlyBody_def)
  from hourlyOptimization_cases[of r ev eng "Array ps" w] b
  have "requests (snd (hourlyOptimization r ev eng (Array ps) w)) = requests w1
      \<or> (\<exists>n. requests (snd (hourlyOptimization r ev eng (Array ps) w)) = requests w1 @ [Send_email n])"
    by auto
  with assms have "PATCH_prompt i fs \<in> set (requests w1)" by auto
  with q show ?thesis by auto
qed

section \<open>Listings under test\<close>

text \<open>
  C1: snapshots with \<open>currently_testing\<close> set have no effect on the hourly run (it returns
  the same list and leaves the same requests as without them); every record it returns and
  every price update it sends belongs to a snapshot that is not testing; and the long-term
  price pass of the daily run selects no testing snapshot, so every long-term price action
  belongs to a snapshot that is not testing.
\<close>

theorem testing_listing_gets_no_price_change:
  "hourlyOptimization r ev eng (Array (filter (\<lambda>p. \<not> currently_testing p) stats)) w
     = hourlyOptimization r ev eng (Array stats) w
   \<and> (\<forall>us. fst (hourlyOptimization r ev eng (Array stats) w) = Inr us \<longrightarrow>
         (\<forall>u\<in>set us. \<exists>p\<in>set stats. \<not> currently_testing p \<and> u_id u = id' p \<and> oldPrice u = price p))
   \<and> (\<forall>i fs. PATCH_prompt i fs \<in> set (requests (snd (hourlyOptimization r ev eng (Array stats) w))) \<longrightarrow>
         PATCH_prompt i fs \<in> set (requests w) \<or> (\<exists>p\<in>set stats. \<not> currently_testing p \<and> id' p = i))
   \<and> (\<forall>p\<in>set (stablePricePrompts eng allData). \<not> currently_testing p)
   \<and> (\<forall>as. fst (dailyOptimization r ev eng (Array allData) w) = Inr as \<longrightarrow>
         (\<forall>a\<in>set as. action_type a = ''optimize_long_term_price_up''
                        \<or> action_type a = ''optimize_long_term_price_down'' \<longrightarrow>
            (\<exists>p\<in>set allData. \<not> currently_testing p \<and> action_promptId a = id' p)))"
proof -
  have a: "hourlyOptimization r ev eng (Array (filter (\<lambda>p. \<not> currently_testing p) stats)) w
     = hourlyOptimization r ev eng (Array stats) w"
    by (simp add: hourlyOptimization_def hourlyBody_def hourlyLoop_filter)
  have b: "\<forall>us. fst (hourlyOptimization r ev eng (Array stats) w) = Inr us \<longrightarrow>
         (\<forall>u\<in>set us. \<exists>p\<in>set stats. \<not> currently_testing p \<and> u_id u = id' p \<and> oldPrice u = price p)"
  proof (intro allI impI ballI)
    fix us u
    assume h: "fst (hourlyOptimization r ev eng (Array stats) w) = Inr us" "u \<in> set us"
    from hourlyOptimization_records[OF h] obtain p w1 w2 vs where
      p: "p \<in> set stats" "hourlyStep r ev eng p w1 = (Inr vs, w2)" "u \<in> set vs" by auto
    from hourlyStep_records[OF p(2,3)] p(1)
    show "\<exists>p\<in>set stats. \<not> currently_testing p \<and> u_id u = id' p \<and> oldPrice u = price p" by blast
  qed
  have c: "\<forall>i fs. PATCH_prompt i fs \<in> set (requests (snd (hourlyOptimization r ev eng (Array stats) w))) \<longrightarrow>
         PATCH_prompt i fs \<in> set (requests w) \<or> (\<exists>p\<in>set stats. \<not> currently_testing p \<and> id' p = i)"
    using hourlyOptimization_requests by blast
  have d: "\<forall>p\<in>set (stablePricePrompts eng allData). \<not> currently_testing p"
    by (simp add: stablePricePrompts_def)
  have e: "\<forall>as. fst (dailyOptimization r ev eng (Array allData) w) = Inr as \<longrightarrow>
         (\<forall>a\<in>set as. action_type a = ''optimize_long_term_price_up''
                        \<or> action_type a = ''optimize_long_term_price_down'' \<longrightarrow>
            (\<exists>p\<in>set allData. \<not> currently_testing p \<and> action_promptId a = id' p))"
  proof (intro allI impI ballI)
    fix as a
    assume h: "fst (dailyOptimization r ev eng (Array allData) w) = Inr as" "a \<in> set as"
      "action_type a = ''optimize_long_term_price_up'' \<or> action_type a = ''optimize_long_term_price_down''"
    show "\<exists>p\<in>set allData. \<not> currently_testing p \<and> action_promptId a = id' p"
    proof -
      from dailyOptimization_cases[of r ev eng "Array allData" w] h(1,2)
      obtain w' where "dailyBody r ev eng (Array allData) w = (Inr as, w')" by auto
      from dailyBody_shape[OF this] obtain n1 n2 n3 where n: "as = n1 @ n2 @ n3"
        "\<forall>a\<in>set n1. (action_type a = ''apply_best_variation'' \<or> action_type a = ''start_ab_test'')
             \<and> (\<exists>p\<in>set (promptsForTesting eng allData). action_promptId a = id' p)"
        "\<forall>a\<in>set n2. action_type a = ''improve_content''
             \<and> (\<exists>p\<in>set (lowPerformingPrompts eng allData). action_promptId a = id' p)"
        "\<forall>a\<in>set n3. (action_type a = ''optimize_long_term_price_up'' \<or> action_type a = ''optimize_long_term_price_down'')
             \<and> (\<exists>p\<in>set (stablePricePrompts eng allData). action_promptId a = id' p)"
        by blast
      have "a \<notin> set n1" using n(2) h(3) by auto
      moreover have "a \<notin> set n2" using n(3) h(3) by auto
      ultimately have "a \<in> set n3" using n(1) h(2) by auto
      with n(4) obtain p where "p \<in> set (stablePricePrompts eng allData)" "action_promptId a = id' p" by blast
      then show ?thesis by (auto simp: stablePricePrompts_def)
    qed
  qed
  from a b c d e show ?thesis by (intro conjI)
qed

lemma Math_round_of_int: "Math_round (of_int k) = of_int k"
  by (rule Math_round_eqI) simp_all

lemma Math_round_numeral: "Math_round (numeral n) = numeral n"
  using Math_round_of_int[of "numeral n"] by simp

lemma sort_results0:
  "js_sort (\<lambda>a b. conversion b - conversion a)
     [\<lparr> title = ''A'', description = ''a'', conversion = 3 \<rparr>,
      \<lparr> title = ''B'', description = ''b'', conversion = 5 \<rparr>,
      \<lparr> title = ''C'', description = ''c'', conversion = 5 \<rparr>]
   = [\<lparr> title = ''B'', description = ''b'', conversion = 5 \<rparr>,
      \<lparr> title = ''C'', description = ''c'', conversion = 5 \<rparr>,
      \<lparr> title = ''A'', description = ''a'', conversion = 3 \<rparr>]"
  by (simp add: js_sort_def)

lemmas daily_defs = dailyOptimization_def dailyBody_def promptsForTesting_def lowPerformingPrompts_def
  stablePricePrompts_def startABTest_def applyBest_def improvePromptContent_def optimizeLongTermPrice_def
  updatePrompt_def stable_def variations0_def

lemma daily_example:
  "dailyOptimization remote_ok env0 (OptimizationEngine env0)
     (Array [(stable ''p1'')\<lparr>currently_testing := True\<rparr>, stable ''p2'']) world0
   = (Inr [Apply_best_variation ''p2'' \<lparr> title = ''B'', description = ''b'', conversion = 5 \<rparr> 0,
           Improve_content ''p2'' ''Title'' ''Title - Version Optimisee'' ''Text''
             ''Text Cette version amelioree offre des resultats plus precis et personnalises.'' 0,
           Optimize_long_term_price_up ''p2'' 100 110 (2 / 10) 0],
      world0\<lparr>requests :=
        [Retrieve_variations ''p2'',
         PATCH_prompt ''p2'' [Title ''B'', Description ''b''],
         PATCH_prompt ''p2'' [Title ''Title - Version Optimisee'',
           Description ''Text Cette version amelioree offre des resultats plus precis et personnalises.''],
         Long_term_trends ''p2'',
         PATCH_prompt ''p2'' [Price (Some 110)]]\<rparr>)"
  by (simp add: daily_defs eval_defs remote_ok_def sort_results0 Math_round_numeral)

text \<open>
  At a concrete input: a testing listing beside one that qualifies for an increase, in the
  hourly run, and beside a stable one, in the daily run.
\<close>

theorem testing_listing_gets_no_price_change_witness:
  "hourlyOptimization remote_ok env0 (OptimizationEngine env0)
      (Array (filter (\<lambda>p. \<not> currently_testing p) [(hot ''p1'' 100)\<lparr>currently_testing := True\<rparr>, hot ''p2'' 100])) world0
    = hourlyOptimization remote_ok env0 (OptimizationEngine env0)
      (Array [(hot ''p1'' 100)\<lparr>currently_testing := True\<rparr>, hot ''p2'' 100]) world0
   \<and> hourlyOptimization remote_ok env0 (OptimizationEngine env0)
      (Array [(hot ''p1'' 100)\<lparr>currently_testing := True\<rparr>, hot ''p2'' 100]) world0
    = (Inr [\<lparr> u_id = ''p2'', oldPrice = 100, newPrice = 105, reason = ''increase_high_conversion'' \<rparr>],
       world0\<lparr>requests := [PATCH_prompt ''p2'' [Price (Some 105)]]\<rparr>)
   \<and> stablePricePrompts (OptimizationEngine env0) [(stable ''p1'')\<lparr>currently_testing := True\<rparr>, stable ''p2'']
       = [stable ''p2'']
   \<and> fst (dailyOptimization remote_ok env0 (OptimizationEngine env0)
       (Array [(stable ''p1'')\<lparr>currently_testing := True\<rparr>, stable ''p2'']) world0)
      = Inr [Apply_best_variation ''p2'' \<lparr> title = ''B'', description = ''b'', conversion = 5 \<rparr> 0,
           Improve_content ''p2'' ''Title'' ''Title - Version Optimisee'' ''Text''
             ''Text Cette version amelioree offre des resultats plus precis et personnalises.'' 0,
           Optimize_long_term_price_up ''p2'' 100 110 (2 / 10) 0]"
proof -
  let ?stats = "[(hot ''p1'' 100)\<lparr>currently_testing := True\<rparr>, hot ''p2'' 100]"
  let ?all = "[(stable ''p1'')\<lparr>currently_testing := True\<rparr>, stable ''p2'']"
  from testing_listing_gets_no_price_change[of remote_ok env0 "OptimizationEngine env0" ?stats world0 ?all]
  have a: "hourlyOptimization remote_ok env0 (OptimizationEngine env0)
      (Array (filter (\<lambda>p. \<not> currently_testing p) ?stats)) world0
    = hourlyOptimization remote_ok env0 (OptimizationEngine env0) (Array ?stats) world0"
    by (rule conjunct1)
  have b: "hourlyOptimization remote_ok env0 (OptimizationEngine env0) (Array ?stats) world0
    = (Inr [\<lparr> u_id = ''p2'', oldPrice = 100, newPrice = 105, reason = ''increase_high_conversion'' \<rparr>],
       world0\<lparr>requests := [PATCH_prompt ''p2'' [Price (Some 105)]]\<rparr>)"
    by (simp add: eval_defs remote_ok_def hot_def Math_round_numeral)
  have c: "stablePricePrompts (OptimizationEngine env0) ?all = [stable ''p2'']"
    by (simp add: stablePricePrompts_def stable_def listing_def OptimizationEngine_def)
  from a b c daily_example show ?thesis by simp
qed

section \<open>Failures and batch caps of the cadences\<close>





















text \<open>
  C7: for every input, the list that a daily run returns holds at most two actions of type
  \<open>start_ab_test\<close> or \<open>apply_best_variation\<close> and at most three of type
  \<open>improve_content\<close>.
\<close>

theorem daily_batch_caps:
  "\<exists>as. fst (dailyOptimization r ev eng allData w) = Inr as
     \<and> length (filter (\<lambda>a. action_type a = ''start_ab_test'' \<or> action_type a = ''apply_best_variation'') as) \<le> 2
     \<and> length (filter (\<lambda>a. action_type a = ''improve_content'') as) \<le> 3"
proof -
  from dailyOptimization_cases[of r ev eng allData w]
  consider (ok) as w' where "dailyBody r ev eng allData w = (Inr as, w')" "dailyOptimization r ev eng allData w = (Inr as, w')"
    | (err) w'' where "dailyOptimization r ev eng allData w = (Inr [], w'')" by blast
  then show ?thesis
  proof cases
    case err then show ?thesis by simp
  next
    case ok
    then obtain ps where ps: "allData = Array ps" by (cases allData) (auto simp: dailyBody_def)
    from dailyBody_shape[OF ok(1)[unfolded ps]] obtain n1 n2 n3 where n: "as = n1 @ n2 @ n3"
        "length n1 \<le> 2" "length n2 \<le> 3"
        "\<forall>a\<in>set n1. (action_type a = ''apply_best_variation'' \<or> action_type a = ''start_ab_test'')
             \<and> (\<exists>p\<in>set (promptsForTesting eng ps). action_promptId a = id' p)"
        "\<forall>a\<in>set n2. action_type a = ''improve_content''
             \<and> (\<exists>p\<in>set (lowPerformingPrompts eng ps). action_promptId a = id' p)"
        "\<forall>a\<in>set n3. (action_type a = ''optimize_long_term_price_up'' \<or> action_type a = ''optimize_long_term_price_down'')
             \<and> (\<exists>p\<in>set (stablePricePrompts eng ps). action_promptId a = id' p)"
      by blast
    let ?P = "\<lambda>a. action_type a = ''start_ab_test'' \<or> action_type a = ''apply_best_variation''"
    let ?Q = "\<lambda>a. action_type a = ''improve_content''"
    have "filter ?P n2 = []" using n(5) by (auto simp: filter_empty_conv)
    moreover have "filter ?P n3 = []" using n(6) by (auto simp: filter_empty_conv)
    moreover have "length (filter ?P n1) \<le> 2"
      using n(2) le_trans[OF length_filter_le[of ?P n1]] by blast
    ultimately have p: "length (filter ?P as) \<le> 2"
      using n(1) by simp
    have "filter ?Q n1 = []" using n(4) by (auto simp: filter_empty_conv)
    moreover have "filter ?Q n3 = []" using n(6) by (auto simp: filter_empty_conv)
    moreover have "length (filter ?Q n2) \<le> 3"
      using n(3) le_trans[OF length_filter_le[of ?Q n2]] by blast
    ultimately have q: "length (filter ?Q as) \<le> 3"
      using n(1) by simp
    from ok(2) p q show ?thesis by simp
  qed
qed

lemma daily_example4:
  "fst (dailyOptimization remote_ok env0 (OptimizationEngine env0)
     (Array [stable ''p1'', stable ''p2'', stable ''p3'', stable ''p4'']) world0)
   = Inr [Apply_best_variation ''p1'' bestB 0, Apply_best_variation ''p2'' bestB 0,
          improved ''p1'', improved ''p2'', improved ''p3'',
          Optimize_long_term_price_up ''p1'' 100 110 (2 / 10) 0,
          Optimize_long_term_price_up ''p2'' 100 110 (2 / 10) 0,
          Optimize_long_term_price_up ''p3'' 100 110 (2 / 10) 0,
          Optimize_long_term_price_up ''p4'' 100 110 (2 / 10) 0]"
  by (simp add: daily_defs eval_defs remote_ok_def sort_results0 Math_round_numeral bestB_def improved_def)

theorem daily_batch_caps_witness:
  "fst (dailyOptimization remote_ok env0 (OptimizationEngine env0)
     (Array [stable ''p1'', stable ''p2'', stable ''p3'', stable ''p4'']) world0)
   = Inr [Apply_best_variation ''p1'' bestB 0, Apply_best_variation ''p2'' bestB 0,
          improved ''p1'', improved ''p2'', improved ''p3'',
          Optimize_long_term_price_up ''p1'' 100 110 (2 / 10) 0,
          Optimize_long_term_price_up ''p2'' 100 110 (2 / 10) 0,
          Optimize_long_term_price_up ''p3'' 100 110 (2 / 10) 0,
          Optimize_long_term_price_up ''p4'' 100 110 (2 / 10) 0]
   \<and> length (filter (\<lambda>a. action_type a = ''start_ab_test'' \<or> action_type a = ''apply_best_variation'')
        [Apply_best_variation ''p1'' bestB 0, Apply_best_variation ''p2'' bestB 0,
          improved ''p1'', improved ''p2'', improved ''p3'',
          Optimize_long_term_price_up ''p1'' 100 110 (2 / 10) 0,
          Optimize_long_term_price_up ''p2'' 100 110 (2 / 10) 0,
          Optimize_long_term_price_up ''p3'' 100 110 (2 / 10) 0,
          Optimize_long_term_price_up ''p4'' 100 110 (2 / 10) 0]) \<le> 2
   \<and> length (filter (\<lambda>a. action_type a = ''improve_content'')
        [Apply_best_variation ''p1'' bestB 0, Apply_best_variation ''p2'' bestB 0,
          improved ''p1'', improved ''p2'', improved ''p3'',
          Optimize_long_term_price_up ''p1'' 100 110 (2 / 10) 0,
          Optimize_long_term_price_up ''p2'' 100 110 (2 / 10) 0,
          Optimize_long_term_price_up ''p3'' 100 110 (2 / 10) 0,
          Optimize_long_term_price_up ''p4'' 100 110 (2 / 10) 0]) \<le> 3"
  using daily_batch_caps[of remote_ok env0 "OptimizationEngine env0"
          "Array [stable ''p1'', stable ''p2'', stable ''p3'', stable ''p4'']" world0]
    daily_example4
  by auto

lemma getPrompt_eq: "getPrompt r i w = (get_prompt r (requests w) i, w\<lparr>requests := requests w @ [GET_prompt i]\<rparr>)"
  by (simp add: getPrompt_def call_def)

section \<open>Double arithmetic\<close>

lemma ilog2_bounds: "0 < n \<Longrightarrow> 2 ^ ilog2 n \<le> n \<and> n < 2 ^ Suc (ilog2 n)"
proof (induction n rule: ilog2.induct)
  case (1 n)
  show ?case
  proof (cases "n < 2")
    case True
    with "1.prems" have "n = 1" by simp
    then show ?thesis by (simp add: ilog2.simps)
  next
    case False
    then have "0 < n div 2" by simp
    from "1.IH"[OF False this] have ih: "2 ^ ilog2 (n div 2) \<le> n div 2" "n div 2 < 2 ^ Suc (ilog2 (n div 2))"
      by simp_all
    have e: "ilog2 n = Suc (ilog2 (n div 2))" using False by (simp add: ilog2.simps)
    have "2 * 2 ^ ilog2 (n div 2) \<le> n" using ih(1) by linarith
    moreover have "n < 2 * 2 ^ Suc (ilog2 (n div 2))" using ih(2) by linarith
    ultimately show ?thesis by (simp add: e)
  qed
qed

lemma exponent_bounds:
  assumes "0 < x"
  shows "power_int 2 (exponent x) \<le> x \<and> x < power_int 2 (exponent x + 1)"
proof -
  obtain n d where q: "quotient_of x = (n, d)" by (cases "quotient_of x")
  then have d: "0 < d" and x: "x = of_int n / of_int d"
    by (simp_all add: quotient_of_denom_pos quotient_of_div)
  from assms x d have n: "0 < n" by (simp add: zero_less_divide_iff)
  define ln where "ln = ilog2 (nat n)"
  define ld where "ld = ilog2 (nat d)"
  define k where "k = int ln - int ld"
  from ilog2_bounds[of "nat n"] n have nb: "2 ^ ln \<le> nat n" "nat n < 2 ^ Suc ln"
    by (simp_all add: ln_def)
  from ilog2_bounds[of "nat d"] d have db: "2 ^ ld \<le> nat d" "nat d < 2 ^ Suc ld"
    by (simp_all add: ld_def)
  have nr: "(2::rat) ^ ln \<le> of_int n" "(of_int n :: rat) < 2 ^ Suc ln"
  proof -
    have "(of_nat (2 ^ ln) :: rat) \<le> of_nat (nat n)" using nb(1) by (simp only: of_nat_le_iff)
    then show "(2::rat) ^ ln \<le> of_int n" using n by simp
    have "(of_nat (nat n) :: rat) < of_nat (2 ^ Suc ln)" using nb(2) by (simp only: of_nat_less_iff)
    then show "(of_int n :: rat) < 2 ^ Suc ln" using n by simp
  qed
  have dr: "(2::rat) ^ ld \<le> of_int d" "(of_int d :: rat) < 2 ^ Suc ld"
  proof -
    have "(of_nat (2 ^ ld) :: rat) \<le> of_nat (nat d)" using db(1) by (simp only: of_nat_le_iff)
    then show "(2::rat) ^ ld \<le> of_int d" using d by simp
    have "(of_nat (nat d) :: rat) < of_nat (2 ^ Suc ld)" using db(2) by (simp only: of_nat_less_iff)
    then show "(of_int d :: rat) < 2 ^ Suc ld" using d by simp
  qed
  have dpos: "(0::rat) < of_int d" using d by simp
  have pk: "power_int (2::rat) k = 2 ^ ln / 2 ^ ld"
    by (simp add: k_def power_int_diff)
  have up: "x < power_int 2 (k + 1)"
  proof -
    have npos: "(0::rat) < of_int n" using n by simp
    have "of_int n * (2::rat) ^ ld \<le> of_int n * of_int d"
      using dr(1) npos by (simp add: mult_left_mono)
    also have "\<dots> < 2 ^ Suc ln * of_int d"
      using nr(2) dpos by (simp add: mult_strict_right_mono)
    finally have "of_int n * (2::rat) ^ ld < 2 ^ Suc ln * of_int d" .
    then have "x < 2 ^ Suc ln / 2 ^ ld"
      using dpos by (simp add: x field_simps)
    also have "\<dots> = power_int 2 (k + 1)"
      by (simp add: power_int_add pk)
    finally show ?thesis .
  qed
  have lo: "power_int 2 (k - 1) < x"
  proof -
    have npos: "(0::rat) < of_int n" using n by simp
    have "(2::rat) ^ ln * of_int d \<le> of_int n * of_int d"
      using nr(1) dpos by (simp add: mult_right_mono)
    also have "\<dots> < of_int n * 2 ^ Suc ld"
      using dr(2) npos by (simp add: mult_strict_left_mono)
    finally have "(2::rat) ^ ln * of_int d < of_int n * 2 ^ Suc ld" .
    then have "2 ^ ln / 2 ^ Suc ld < x"
      using dpos by (simp add: x field_simps)
    moreover have "power_int (2::rat) (k - 1) = 2 ^ ln / 2 ^ Suc ld"
      by (simp add: power_int_diff pk)
    ultimately show ?thesis by simp
  qed
  have ex: "exponent x = (if power_int 2 k \<le> x then k else k - 1)"
    by (simp add: exponent_def q k_def ln_def ld_def Let_def)
  show ?thesis
  proof (cases "power_int 2 k \<le> x")
    case True
    with up ex show ?thesis by simp
  next
    case False
    with lo ex show ?thesis by (simp add: less_imp_le)
  qed
qed



lemma exponent_unique:
  assumes "0 < x" "power_int 2 e \<le> x" "x < power_int 2 (e + 1)"
  shows "exponent x = e"
proof -
  from exponent_bounds[OF assms(1)]
  have b: "power_int 2 (exponent x) \<le> x" "x < power_int 2 (exponent x + 1)" by simp_all
  have "\<not> exponent x < e"
  proof
    assume "exponent x < e"
    then have "power_int (2::rat) (exponent x + 1) \<le> power_int 2 e"
      by (intro power_int_increasing) simp_all
    with b(2) assms(2) show False by linarith
  qed
  moreover have "\<not> e < exponent x"
  proof
    assume "e < exponent x"
    then have "power_int (2::rat) (e + 1) \<le> power_int 2 (exponent x)"
      by (intro power_int_increasing) simp_all
    with b(1) assms(3) show False by linarith
  qed
  ultimately show ?thesis by linarith
qed

lemma roundHalfEven_near:
  assumes "\<bar>y - of_int m\<bar> < 1 / 2"
  shows "roundHalfEven y = m"
proof -
  from assms have y: "of_int m - 1 / 2 < y" "y < of_int m + 1 / 2" by linarith+
  show ?thesis
  proof (cases "of_int m \<le> y")
    case True
    with y have "\<lfloor>y\<rfloor> = m" by (intro floor_unique) linarith+
    with y show ?thesis by (simp add: roundHalfEven_def)
  next
    case False
    with y have f: "\<lfloor>y\<rfloor> = m - 1" by (intro floor_unique) (simp, linarith)+
    with y show ?thesis by (simp add: roundHalfEven_def)
  qed
qed

lemma roundHalfEven_tie:
  assumes "y = of_int n + 1 / 2"
  shows "roundHalfEven y = (if even n then n else n + 1)"
proof -
  have "\<lfloor>y\<rfloor> = n" unfolding assms by (intro floor_unique) simp_all
  then show ?thesis by (simp add: roundHalfEven_def assms)
qed

lemma double_eqI:
  assumes "0 < x" "power_int 2 e \<le> x" "x < power_int 2 (e + 1)"
    and "roundHalfEven (x * power_int 2 (52 - e)) = m"
  shows "double x = of_int m * power_int 2 (e - 52)"
  using assms exponent_unique[OF assms(1,2,3)] by (simp add: double_def Let_def)

text \<open>The doubles of the examples, each by its exponent and significand.\<close>

lemma percent_30: "percent 30 = 5404319552844595 / 18014398509481984"
proof -
  have r: "roundHalfEven ((3 / 10) * power_int 2 (52 - (- 2))) = 5404319552844595"
    by (rule roundHalfEven_near) simp
  have "double (3 / 10) = of_int 5404319552844595 * power_int 2 ((- 2) - 52)"
    by (rule double_eqI[OF _ _ _ r]) simp_all
  then show ?thesis by (simp add: percent_def)
qed

lemma factor_30: "fsub 1 (5404319552844595 / 18014398509481984) = 3152519739159347 / 4503599627370496"
proof -
  have r: "roundHalfEven ((12610078956637389 / 18014398509481984) * power_int 2 (52 - (- 1))) = 6305039478318694"
    using roundHalfEven_tie[of "(12610078956637389 / 18014398509481984) * power_int 2 (52 - (- 1))" 6305039478318694] by simp
  have "double (12610078956637389 / 18014398509481984) = of_int 6305039478318694 * power_int 2 ((- 1) - 52)"
    by (rule double_eqI[OF _ _ _ r]) simp_all
  then show ?thesis by (simp add: fsub_def)
qed

lemma price_45_30: "fmul 45 (3152519739159347 / 4503599627370496) = 8866461766385663 / 281474976710656"
proof -
  have r: "roundHalfEven ((141863388262170615 / 4503599627370496) * power_int 2 (52 - 4)) = 8866461766385663"
    by (rule roundHalfEven_near) simp
  have "double (141863388262170615 / 4503599627370496) = of_int 8866461766385663 * power_int 2 (4 - 52)"
    by (rule double_eqI[OF _ _ _ r]) simp_all
  then show ?thesis by (simp add: fmul_def)
qed


lemma hours_72: "fmul 72 60 = 4320"
proof -
  have r: "roundHalfEven ((4320) * power_int 2 (52 - 12)) = 4749890231992320"
    by (rule roundHalfEven_near) simp
  have "double (4320) = of_int 4749890231992320 * power_int 2 (12 - 52)"
    by (rule double_eqI[OF _ _ _ r]) simp_all
  then show ?thesis by (simp add: fmul_def)
qed

lemma hours_4320: "fmul 4320 60 = 259200"
proof -
  have r: "roundHalfEven ((259200) * power_int 2 (52 - 17)) = 8906044184985600"
    by (rule roundHalfEven_near) simp
  have "double (259200) = of_int 8906044184985600 * power_int 2 (17 - 52)"
    by (rule double_eqI[OF _ _ _ r]) simp_all
  then show ?thesis by (simp add: fmul_def)
qed

lemma hours_259200: "fmul 259200 1000 = 259200000"
proof -
  have r: "roundHalfEven ((259200000) * power_int 2 (52 - 27)) = 8697308774400000"
    by (rule roundHalfEven_near) simp
  have "double (259200000) = of_int 8697308774400000 * power_int 2 (27 - 52)"
    by (rule double_eqI[OF _ _ _ r]) simp_all
  then show ?thesis by (simp add: fmul_def)
qed

lemma end_72: "fadd 0 259200000 = 259200000"
proof -
  have r: "roundHalfEven ((259200000) * power_int 2 (52 - 27)) = 8697308774400000"
    by (rule roundHalfEven_near) simp
  have "double (259200000) = of_int 8697308774400000 * power_int 2 (27 - 52)"
    by (rule double_eqI[OF _ _ _ r]) simp_all
  then show ?thesis by (simp add: fadd_def)
qed

lemma percent_10: "percent 10 = 3602879701896397 / 36028797018963968"
proof -
  have r: "roundHalfEven ((1 / 10) * power_int 2 (52 - (- 4))) = 7205759403792794"
    by (rule roundHalfEven_near) simp
  have "double (1 / 10) = of_int 7205759403792794 * power_int 2 ((- 4) - 52)"
    by (rule double_eqI[OF _ _ _ r]) simp_all
  then show ?thesis by (simp add: percent_def)
qed

lemma factor_10: "fsub 1 (3602879701896397 / 36028797018963968) = 8106479329266893 / 9007199254740992"
proof -
  have r: "roundHalfEven ((32425917317067571 / 36028797018963968) * power_int 2 (52 - (- 1))) = 8106479329266893"
    by (rule roundHalfEven_near) simp
  have "double (32425917317067571 / 36028797018963968) = of_int 8106479329266893 * power_int 2 ((- 1) - 52)"
    by (rule double_eqI[OF _ _ _ r]) simp_all
  then show ?thesis by (simp add: fsub_def)
qed

lemma price_big: "fmul 169072737950200512 (8106479329266893 / 9007199254740992) = 152165464155180480"
proof -
  have r: "roundHalfEven ((21415385239622790815358739269519 / 140737488355328) * power_int 2 (52 - 57)) = 4755170754849390"
    by (rule roundHalfEven_near) simp
  have "double (21415385239622790815358739269519 / 140737488355328) = of_int 4755170754849390 * power_int 2 (57 - 52)"
    by (rule double_eqI[OF _ _ _ r]) simp_all
  then show ?thesis by (simp add: fmul_def)
qed

lemma normal_big: "double (1370584655335858751306637414236160 / 8106479329266893) = 169072737950200544"
proof -
  have r: "roundHalfEven ((1370584655335858751306637414236160 / 8106479329266893) * power_int 2 (52 - 57)) = 5283523060943767"
    by (rule roundHalfEven_near) simp
  have "double (1370584655335858751306637414236160 / 8106479329266893) = of_int 5283523060943767 * power_int 2 (57 - 52)"
    by (rule double_eqI[OF _ _ _ r]) simp_all
  then show ?thesis by (simp add: field_simps)
qed

lemma hours_24: "fmul 24 60 = 1440"
proof -
  have r: "roundHalfEven ((1440) * power_int 2 (52 - 10)) = 6333186975989760"
    by (rule roundHalfEven_near) simp
  have "double (1440) = of_int 6333186975989760 * power_int 2 (10 - 52)"
    by (rule double_eqI[OF _ _ _ r]) simp_all
  then show ?thesis by (simp add: fmul_def)
qed

lemma hours_1440: "fmul 1440 60 = 86400"
proof -
  have r: "roundHalfEven ((86400) * power_int 2 (52 - 16)) = 5937362789990400"
    by (rule roundHalfEven_near) simp
  have "double (86400) = of_int 5937362789990400 * power_int 2 (16 - 52)"
    by (rule double_eqI[OF _ _ _ r]) simp_all
  then show ?thesis by (simp add: fmul_def)
qed

lemma hours_86400: "fmul 86400 1000 = 86400000"
proof -
  have r: "roundHalfEven ((86400000) * power_int 2 (52 - 26)) = 5798205849600000"
    by (rule roundHalfEven_near) simp
  have "double (86400000) = of_int 5798205849600000 * power_int 2 (26 - 52)"
    by (rule double_eqI[OF _ _ _ r]) simp_all
  then show ?thesis by (simp add: fmul_def)
qed

lemma end_24: "fadd 0 86400000 = 86400000"
proof -
  have r: "roundHalfEven ((86400000) * power_int 2 (52 - 26)) = 5798205849600000"
    by (rule roundHalfEven_near) simp
  have "double (86400000) = of_int 5798205849600000 * power_int 2 (26 - 52)"
    by (rule double_eqI[OF _ _ _ r]) simp_all
  then show ?thesis by (simp add: fadd_def)
qed



lemma double_180000000000: "double 180000000000 = 180000000000"
proof -
  have r: "roundHalfEven ((180000000000) * power_int 2 (52 - 37)) = 5898240000000000"
    by (rule roundHalfEven_near) simp
  have "double (180000000000) = of_int 5898240000000000 * power_int 2 (37 - 52)"
    by (rule double_eqI[OF _ _ _ r]) simp_all
  then show ?thesis by (simp add: field_simps)
qed

lemma double_10800000000000: "double 10800000000000 = 10800000000000"
proof -
  have r: "roundHalfEven ((10800000000000) * power_int 2 (52 - 43)) = 5529600000000000"
    by (rule roundHalfEven_near) simp
  have "double (10800000000000) = of_int 5529600000000000 * power_int 2 (43 - 52)"
    by (rule double_eqI[OF _ _ _ r]) simp_all
  then show ?thesis by (simp add: field_simps)
qed

lemma double_10800000000000000: "double 10800000000000000 = 10800000000000000"
proof -
  have r: "roundHalfEven ((10800000000000000) * power_int 2 (52 - 53)) = 5400000000000000"
    by (rule roundHalfEven_near) simp
  have "double (10800000000000000) = of_int 5400000000000000 * power_int 2 (53 - 52)"
    by (rule double_eqI[OF _ _ _ r]) simp_all
  then show ?thesis by (simp add: field_simps)
qed

lemma double_neg: "double (- x) = - double x"
  by (simp add: double_def Let_def)

lemma Math_round_31: "Math_round (8866461766385663 / 281474976710656) = 31"
  using Math_round_eqI[of 31 "8866461766385663 / 281474976710656"] by simp

lemma timeClip_int: "\<bar>of_int k :: rat\<bar> \<le> 8640000000000000 \<Longrightarrow> timeClip (of_int k) = Some k"
  by (simp add: timeClip_def js_trunc_def)

lemma end_valid: "timeClip (fadd (of_int 0) (fmul (fmul (fmul (min 100 72) 60) 60) 1000)) = Some 259200000"
  using timeClip_int[of 259200000] by (simp add: hours_72 hours_4320 hours_259200 end_72)

lemma end_invalid:
  "timeClip (fadd (of_int 0) (fmul (fmul (fmul (min (- 3000000000) 72) 60) 60) 1000)) = None"
proof -
  have 1: "fmul (- 3000000000) 60 = - 180000000000"
    using double_neg[of 180000000000] by (simp add: fmul_def double_180000000000)
  have 2: "fmul (- 180000000000) 60 = - 10800000000000"
    using double_neg[of 10800000000000] by (simp add: fmul_def double_10800000000000)
  have 3: "fmul (- 10800000000000) 1000 = - 10800000000000000"
    using double_neg[of 10800000000000000] by (simp add: fmul_def double_10800000000000000)
  have 4: "fadd 0 (- 10800000000000000) = - 10800000000000000"
    using double_neg[of 10800000000000000] by (simp add: fadd_def double_10800000000000000)
  show ?thesis by (simp add: 1 2 3 4 timeClip_def)
qed

section \<open>Promotions on a listing\<close>

text \<open>
  C8: when the listing that \<open>applyPromotionToPrompt\<close> fetches is already on promotion,
  the call sends no update and returns the listing as it is; otherwise the update it builds
  has the discount \<open>min discountPercentage 50\<close>, an end date
  \<open>min durationHours 72\<close> hours after the clock, and the price
  \<open>round (price * (1 - discount / 100))\<close>, computed as the source computes it, in doubles;
  this update is sent whenever the end date is a valid date, and when it is none
  \<open>toISOString\<close> throws before anything is sent.
\<close>

theorem applyPromotionToPrompt_effect:
  assumes "get_prompt r (requests w) promptId = Inr p"
  shows "(on_promotion p \<longrightarrow>
            applyPromotionToPrompt r PromotionService promptId discountPercentage durationHours w
              = (Inr p, w\<lparr>requests := requests w @ [GET_prompt promptId]\<rparr>))
       \<and> (\<not> on_promotion p \<longrightarrow>
            (\<forall>t. timeClip (fadd (of_int (clock r (requests w @ [GET_prompt promptId])))
                              (fmul (fmul (fmul (min durationHours 72) 60) 60) 1000)) = Some t \<longrightarrow>
                 requests (snd (applyPromotionToPrompt r PromotionService promptId discountPercentage durationHours w))
                   = requests w @ [GET_prompt promptId,
                       PATCH_prompt promptId
                         [Price (Some (Math_round (fmul (price p) (fsub 1 (percent (min discountPercentage 50)))))),
                          On_promotion True,
                          Promotion_percentage (min discountPercentage 50),
                          Promotion_end_date (Some t)]])
          \<and> (timeClip (fadd (of_int (clock r (requests w @ [GET_prompt promptId])))
                              (fmul (fmul (fmul (min durationHours 72) 60) 60) 1000)) = None \<longrightarrow>
                 applyPromotionToPrompt r PromotionService promptId discountPercentage durationHours w
                   = (Inl (Error ''Invalid time value''), w\<lparr>requests := requests w @ [GET_prompt promptId]\<rparr>)))"
  using assms
  by (simp add: applyPromotionToPrompt_def getPrompt_eq updatePrompt_def call_def promotionFields_def
        PromotionService_def Let_def)

theorem applyPromotionToPrompt_effect_witness:
  "get_prompt (shop 45) (requests world0) ''p1'' = Inr (listing ''p1'' 45)
   \<and> \<not> on_promotion (listing ''p1'' 45)
   \<and> timeClip (fadd (of_int (clock (shop 45) (requests world0 @ [GET_prompt ''p1''])))
                   (fmul (fmul (fmul (min 100 72) 60) 60) 1000)) = Some 259200000
   \<and> requests (snd (applyPromotionToPrompt (shop 45) PromotionService ''p1'' 30 100 world0))
        = [GET_prompt ''p1'',
           PATCH_prompt ''p1'' [Price (Some 31), On_promotion True, Promotion_percentage 30,
             Promotion_end_date (Some 259200000)]]
   \<and> timeClip (fadd (of_int (clock (shop 45) (requests world0 @ [GET_prompt ''p1''])))
                   (fmul (fmul (fmul (min (- 3000000000) 72) 60) 60) 1000)) = None
   \<and> applyPromotionToPrompt (shop 45) PromotionService ''p1'' 30 (- 3000000000) world0
        = (Inl (Error ''Invalid time value''), world0\<lparr>requests := [GET_prompt ''p1'']\<rparr>)
   \<and> on_promotion ((listing ''p1'' 45)\<lparr>on_promotion := True\<rparr>)
   \<and> applyPromotionToPrompt (remote_ok\<lparr>get_prompt := \<lambda>h i. Inr ((listing i 45)\<lparr>on_promotion := True\<rparr>)\<rparr>)
        PromotionService ''p1'' 30 100 world0
      = (Inr ((listing ''p1'' 45)\<lparr>on_promotion := True\<rparr>), world0\<lparr>requests := [GET_prompt ''p1'']\<rparr>)"
proof -
  have g: "get_prompt (shop 45) (requests world0) ''p1'' = Inr (listing ''p1'' 45)"
    by (simp add: shop_def catalogFrom_def world0_def)
  have n: "\<not> on_promotion (listing ''p1'' 45)" by (simp add: listing_def)
  have c: "clock (shop 45) (requests world0 @ [GET_prompt ''p1'']) = 0"
    by (simp add: shop_def remote_ok_def)
  have p: "price (listing ''p1'' 45) = 45" by (simp add: listing_def)
  have v: "timeClip (fadd (of_int (clock (shop 45) (requests world0 @ [GET_prompt ''p1''])))
                   (fmul (fmul (fmul (min 100 72) 60) 60) 1000)) = Some 259200000"
    unfolding c by (rule end_valid)
  have i: "timeClip (fadd (of_int (clock (shop 45) (requests world0 @ [GET_prompt ''p1''])))
                   (fmul (fmul (fmul (min (- 3000000000) 72) 60) 60) 1000)) = None"
    unfolding c by (rule end_invalid)
  have m: "Math_round (fmul 45 (fsub 1 (percent 30))) = 31"
    by (simp add: percent_30 factor_30 price_45_30 Math_round_31)
  note t1 = applyPromotionToPrompt_effect[OF g, of 30 100]
  from t1 n v have "requests (snd (applyPromotionToPrompt (shop 45) PromotionService ''p1'' 30 100 world0))
        = requests world0 @ [GET_prompt ''p1'',
           PATCH_prompt ''p1'' [Price (Some (Math_round (fmul (price (listing ''p1'' 45)) (fsub 1 (percent (min 30 50)))))),
             On_promotion True, Promotion_percentage (min 30 50), Promotion_end_date (Some 259200000)]]"
    by blast
  then have a: "requests (snd (applyPromotionToPrompt (shop 45) PromotionService ''p1'' 30 100 world0))
        = [GET_prompt ''p1'',
           PATCH_prompt ''p1'' [Price (Some 31), On_promotion True, Promotion_percentage 30,
             Promotion_end_date (Some 259200000)]]"
    by (simp add: p m world0_def)
  note t2 = applyPromotionToPrompt_effect[OF g, of 30 "- 3000000000"]
  from t2 n i have "applyPromotionToPrompt (shop 45) PromotionService ''p1'' 30 (- 3000000000) world0
        = (Inl (Error ''Invalid time value''), world0\<lparr>requests := requests world0 @ [GET_prompt ''p1'']\<rparr>)"
    by blast
  then have b: "applyPromotionToPrompt (shop 45) PromotionService ''p1'' 30 (- 3000000000) world0
        = (Inl (Error ''Invalid time value''), world0\<lparr>requests := [GET_prompt ''p1'']\<rparr>)"
    by (simp add: world0_def)
  let ?r = "remote_ok\<lparr>get_prompt := \<lambda>h i. Inr ((listing i 45)\<lparr>on_promotion := True\<rparr>)\<rparr>"
  have g2: "get_prompt ?r (requests world0) ''p1'' = Inr ((listing ''p1'' 45)\<lparr>on_promotion := True\<rparr>)"
    by simp
  from applyPromotionToPrompt_effect[OF g2, of 30 100]
  have d: "applyPromotionToPrompt ?r PromotionService ''p1'' 30 100 world0
      = (Inr ((listing ''p1'' 45)\<lparr>on_promotion := True\<rparr>), world0\<lparr>requests := [GET_prompt ''p1'']\<rparr>)"
    by (simp add: world0_def)
  from g n v a i b d show ?thesis by simp
qed


lemmas promo_defs = applyPromotionToPrompt_def removePromotionFromPrompt_def getPrompt_eq
  updatePrompt_def call_def promotionFields_def removalFields_def PromotionService_def Let_def
  shop_def remote_ok_def catalogFrom_def listing_def patched_def world0_def js_divide_def

lemma end_24h: "timeClip (fadd 0 (fmul (fmul (fmul 24 60) 60) 1000)) = Some 86400000"
  using timeClip_int[of 86400000] by (simp add: hours_24 hours_1440 hours_86400 end_24)

text \<open>
  C3, as stated, fails: for the integer price 169072737950200512 and a discount of 10 percent,
  applying and removing the promotion sends back the price plus 32, since doubles of that
  size are 32 apart.
\<close>

theorem promotion_round_trip_large_price_counterexample:
  "price (listing ''p1'' 169072737950200512) = of_int 169072737950200512
   \<and> requests (snd (removePromotionFromPrompt (shop 169072737950200512) ''p1''
        (snd (applyPromotionToPrompt (shop 169072737950200512) PromotionService ''p1'' 10 24 world0))))
      = [GET_prompt ''p1'',
         PATCH_prompt ''p1'' [Price (Some 152165464155180480), On_promotion True,
           Promotion_percentage 10, Promotion_end_date (Some 86400000)],
         GET_prompt ''p1'',
         PATCH_prompt ''p1'' [Price (Some 169072737950200544), On_promotion False,
           Promotion_percentage 0, Promotion_end_date None]]
   \<and> \<not> \<bar>169072737950200544 - 169072737950200512\<bar> \<le> (1::int)"
proof -
  let ?w1 = "world0\<lparr>requests := [GET_prompt ''p1'',
         PATCH_prompt ''p1'' [Price (Some 152165464155180480), On_promotion True,
           Promotion_percentage 10, Promotion_end_date (Some 86400000)]]\<rparr>"
  have f: "fsub 1 (percent 10) = 8106479329266893 / 9007199254740992"
    by (simp add: percent_10 factor_10)
  have a: "Math_round (fmul 169072737950200512 (8106479329266893 / 9007199254740992)) = 152165464155180480"
    by (simp add: price_big Math_round_numeral)
  have ap: "snd (applyPromotionToPrompt (shop 169072737950200512) PromotionService ''p1'' 10 24 world0) = ?w1"
    by (simp add: promo_defs f a end_24h)
  have rm: "requests (snd (removePromotionFromPrompt (shop 169072737950200512) ''p1'' ?w1))
      = [GET_prompt ''p1'',
         PATCH_prompt ''p1'' [Price (Some 152165464155180480), On_promotion True,
           Promotion_percentage 10, Promotion_end_date (Some 86400000)],
         GET_prompt ''p1'',
         PATCH_prompt ''p1'' [Price (Some 169072737950200544), On_promotion False,
           Promotion_percentage 0, Promotion_end_date None]]"
    by (simp add: promo_defs f) (simp add: normal_big Math_round_numeral)
  have p: "price (listing ''p1'' 169072737950200512) = of_int 169072737950200512"
    by (simp add: listing_def)
  from p rm show ?thesis unfolding ap by simp
qed



lemma js_sort_Cons: "js_sort cmp (x # xs) = js_insert cmp x (js_sort cmp xs)"
  by (simp add: js_sort_def)

lemma js_sort_Nil: "js_sort cmp [] = []"
  by (simp add: js_sort_def)

lemma js_sort_eq_Nil: "js_sort cmp xs = [] \<longleftrightarrow> xs = []"
proof (cases xs)
  case Nil then show ?thesis by (simp add: js_sort_Nil)
next
  case (Cons x ys)
  then show ?thesis by (cases "js_sort cmp ys") (simp_all add: js_sort_Cons)
qed

lemma best_first:
  fixes rs :: "result list"
  assumes "rs \<noteq> []"
  shows "\<exists>k<length rs. hd (js_sort (\<lambda>a b. conversion b - conversion a) rs) = rs ! k
           \<and> (\<forall>j<length rs. conversion (rs ! j) \<le> conversion (rs ! k))
           \<and> (\<forall>j<k. conversion (rs ! j) < conversion (rs ! k))"
  using assms
proof (induction rs)
  case Nil then show ?case by simp
next
  case (Cons x xs)
  let ?cmp = "\<lambda>a b :: result. conversion b - conversion a"
  show ?case
  proof (cases "xs = []")
    case True
    then show ?thesis by (simp add: js_sort_def)
  next
    case False
    from Cons.IH[OF False] obtain k where k: "k < length xs" "hd (js_sort ?cmp xs) = xs ! k"
      "\<forall>j<length xs. conversion (xs ! j) \<le> conversion (xs ! k)"
      "\<forall>j<k. conversion (xs ! j) < conversion (xs ! k)" by blast
    from False obtain b rest where br: "js_sort ?cmp xs = b # rest"
      by (cases "js_sort ?cmp xs") (simp_all add: js_sort_eq_Nil)
    with k(2) have b: "b = xs ! k" by simp
    show ?thesis
    proof (cases "conversion b \<le> conversion x")
      case True
      then have h: "hd (js_sort ?cmp (x # xs)) = (x # xs) ! 0" by (simp add: js_sort_Cons br)
      have "\<forall>j<length (x # xs). conversion ((x # xs) ! j) \<le> conversion ((x # xs) ! 0)"
      proof (intro allI impI)
        fix j assume "j < length (x # xs)"
        then show "conversion ((x # xs) ! j) \<le> conversion ((x # xs) ! 0)"
          using k(3) True b by (cases j) (auto intro: order_trans)
      qed
      with h show ?thesis by (intro exI[of _ 0]) simp
    next
      case False
      then have h: "hd (js_sort ?cmp (x # xs)) = (x # xs) ! Suc k" by (simp add: js_sort_Cons br b)
      have 1: "\<forall>j<length (x # xs). conversion ((x # xs) ! j) \<le> conversion ((x # xs) ! Suc k)"
      proof (intro allI impI)
        fix j assume "j < length (x # xs)"
        then show "conversion ((x # xs) ! j) \<le> conversion ((x # xs) ! Suc k)"
          using k(3) False b by (cases j) auto
      qed
      have 2: "\<forall>j<Suc k. conversion ((x # xs) ! j) < conversion ((x # xs) ! Suc k)"
      proof (intro allI impI)
        fix j assume "j < Suc k"
        then show "conversion ((x # xs) ! j) < conversion ((x # xs) ! Suc k)"
          using k(4) False b by (cases j) auto
      qed
      from h 1 2 k(1) show ?thesis by (intro exI[of _ "Suc k"]) simp
    qed
  qed
qed

section \<open>The winner of an experiment\<close>

text \<open>
  C4, as stated, fails: an experiment with a single variant, tested, with its result, gets no
  update and no action, since \<open>startABTest\<close> returns before it looks at the results when
  there are fewer than two titles.
\<close>

theorem startABTest_single_variant_counterexample:
  "tested_count variations1 = Some 1 \<and> titles variations1 = Some [''A'']
   \<and> results variations1 = Some [\<lparr> title = ''A'', description = ''a'', conversion = 3 \<rparr>]
   \<and> startABTest (remote_ok\<lparr>retrieve_variations := \<lambda>h i. Inr (Some variations1)\<rparr>)
        (listing ''p1'' 100) world0
      = (Inr None, world0\<lparr>requests := [Retrieve_variations ''p1'']\<rparr>)"
  by (simp add: startABTest_def call_def variations1_def listing_def world0_def)

text \<open>
  C4, amended: for an experiment with at least two titles and its descriptions, whose
  variants are all tested and whose results are not empty, \<open>startABTest\<close> sends the title
  and description of the result with the greatest conversion, the first of them in the
  results when several are equal; when that update succeeds it returns exactly one
  \<open>apply_best_variation\<close> action for this result, and none when the update fails.
\<close>

theorem startABTest_applies_best:
  assumes "retrieve_variations r (requests w) (id' p) = Inr (Some v)"
    and "titles v = Some ts" and "descriptions v = Some ds" and "1 < length ts"
    and "tested_count v = Some n" and "length ts \<le> n"
    and "results v = Some rs" and "rs \<noteq> []"
  shows "\<exists>k<length rs.
           (\<forall>j<length rs. conversion (rs ! j) \<le> conversion (rs ! k))
         \<and> (\<forall>j<k. conversion (rs ! j) < conversion (rs ! k))
         \<and> requests (snd (startABTest r p w))
             = requests w @ [Retrieve_variations (id' p),
                 PATCH_prompt (id' p) [Title (title (rs ! k)), Description (description (rs ! k))]]
         \<and> ((\<exists>p'. patch_prompt r (requests w @ [Retrieve_variations (id' p)]) (id' p)
                      [Title (title (rs ! k)), Description (description (rs ! k))] = Inr p')
              \<longrightarrow> (\<exists>t. fst (startABTest r p w) = Inr (Some (Apply_best_variation (id' p) (rs ! k) t))))
         \<and> ((\<exists>e. patch_prompt r (requests w @ [Retrieve_variations (id' p)]) (id' p)
                      [Title (title (rs ! k)), Description (description (rs ! k))] = Inl e)
              \<longrightarrow> fst (startABTest r p w) = Inr None)"
proof -
  let ?cmp = "\<lambda>a b :: result. conversion b - conversion a"
  let ?w1 = "w\<lparr>requests := requests w @ [Retrieve_variations (id' p)]\<rparr>"
  from best_first[OF assms(8)] obtain k where k: "k < length rs" "hd (js_sort ?cmp rs) = rs ! k"
    "\<forall>j<length rs. conversion (rs ! j) \<le> conversion (rs ! k)"
    "\<forall>j<k. conversion (rs ! j) < conversion (rs ! k)" by blast
  from assms(8) obtain b rest where br: "js_sort ?cmp rs = b # rest"
    by (cases "js_sort ?cmp rs") (simp_all add: js_sort_eq_Nil)
  with k(2) have b: "b = rs ! k" by simp
  have s: "startABTest r p w = applyBest r p rs ?w1"
    using assms by (simp add: startABTest_def call_def)
  let ?fs = "[Title (title (rs ! k)), Description (description (rs ! k))]"
  have a: "applyBest r p rs ?w1 =
     (case patch_prompt r (requests ?w1) (id' p) ?fs of
        Inl e \<Rightarrow> (Inr None, ?w1\<lparr>requests := requests ?w1 @ [PATCH_prompt (id' p) ?fs]\<rparr>)
      | Inr _ \<Rightarrow> (Inr (Some (Apply_best_variation (id' p) (rs ! k)
                    (clock r (requests ?w1 @ [PATCH_prompt (id' p) ?fs])))),
                  ?w1\<lparr>requests := requests ?w1 @ [PATCH_prompt (id' p) ?fs]\<rparr>))"
    by (simp add: applyBest_def br b updatePrompt_def call_def split: sum.splits)
  have 1: "requests (snd (startABTest r p w))
             = requests w @ [Retrieve_variations (id' p), PATCH_prompt (id' p) ?fs]"
    by (simp add: s a split: sum.splits)
  have 2: "(\<exists>p'. patch_prompt r (requests w @ [Retrieve_variations (id' p)]) (id' p) ?fs = Inr p')
              \<longrightarrow> (\<exists>t. fst (startABTest r p w) = Inr (Some (Apply_best_variation (id' p) (rs ! k) t)))"
    by (auto simp: s a)
  have 3: "(\<exists>e. patch_prompt r (requests w @ [Retrieve_variations (id' p)]) (id' p) ?fs = Inl e)
              \<longrightarrow> fst (startABTest r p w) = Inr None"
    by (auto simp: s a)
  from k(1,3,4) 1 2 3 show ?thesis by blast
qed

theorem startABTest_applies_best_witness:
  "retrieve_variations remote_ok (requests world0) (id' (listing ''p1'' 100)) = Inr (Some variations0)
   \<and> titles variations0 = Some [''A'', ''B'', ''C''] \<and> descriptions variations0 = Some [''a'', ''b'', ''c'']
   \<and> 1 < length [''A'', ''B'', ''C''] \<and> tested_count variations0 = Some 3
   \<and> length [''A'', ''B'', ''C''] \<le> (3::nat)
   \<and> results variations0 = Some [\<lparr> title = ''A'', description = ''a'', conversion = 3 \<rparr>, bestB,
                                  \<lparr> title = ''C'', description = ''c'', conversion = 5 \<rparr>]
   \<and> requests (snd (startABTest remote_ok (listing ''p1'' 100) world0))
       = [Retrieve_variations ''p1'', PATCH_prompt ''p1'' [Title ''B'', Description ''b'']]
   \<and> (\<exists>t. fst (startABTest remote_ok (listing ''p1'' 100) world0)
             = Inr (Some (Apply_best_variation ''p1'' bestB t)))"
proof -
  let ?rs = "[\<lparr> title = ''A'', description = ''a'', conversion = 3 \<rparr>, bestB,
              \<lparr> title = ''C'', description = ''c'', conversion = 5 \<rparr>]"
  let ?p = "listing ''p1'' 100"
  have i: "id' ?p = ''p1''" by (simp add: listing_def)
  have 1: "retrieve_variations remote_ok (requests world0) (id' ?p) = Inr (Some variations0)"
    by (simp add: remote_ok_def)
  have 2: "titles variations0 = Some [''A'', ''B'', ''C'']" by (simp add: variations0_def)
  have 3: "descriptions variations0 = Some [''a'', ''b'', ''c'']" by (simp add: variations0_def)
  have 4: "1 < length [''A'', ''B'', ''C'']" by simp
  have 5: "tested_count variations0 = Some 3" by (simp add: variations0_def)
  have 6: "length [''A'', ''B'', ''C''] \<le> (3::nat)" by simp
  have 7: "results variations0 = Some ?rs" by (simp add: variations0_def bestB_def)
  have 8: "?rs \<noteq> []" by simp
  from startABTest_applies_best[OF 1 2 3 4 5 6 7 8]
  obtain k where k: "k < length ?rs"
     "\<forall>j<length ?rs. conversion (?rs ! j) \<le> conversion (?rs ! k)"
     "\<forall>j<k. conversion (?rs ! j) < conversion (?rs ! k)"
     "requests (snd (startABTest remote_ok ?p world0))
             = requests world0 @ [Retrieve_variations (id' ?p),
                 PATCH_prompt (id' ?p) [Title (title (?rs ! k)), Description (description (?rs ! k))]]"
     "(\<exists>p'. patch_prompt remote_ok (requests world0 @ [Retrieve_variations (id' ?p)]) (id' ?p)
                      [Title (title (?rs ! k)), Description (description (?rs ! k))] = Inr p')
              \<longrightarrow> (\<exists>t. fst (startABTest remote_ok ?p world0) = Inr (Some (Apply_best_variation (id' ?p) (?rs ! k) t)))"
    by blast
  have k1: "k = 1"
  proof -
    from k(1) consider "k = 0" | "k = 1" | "k = 2" by fastforce
    then show ?thesis
    proof cases
      case 1
      with k(2)[rule_format, of 1] show ?thesis by (simp add: bestB_def)
    next
      case 2
      then show ?thesis .
    next
      case 3
      with k(3)[rule_format, of 1] show ?thesis by (simp add: bestB_def)
    qed
  qed
  have ok: "\<exists>p'. patch_prompt remote_ok (requests world0 @ [Retrieve_variations (id' ?p)]) (id' ?p)
                      [Title (title (?rs ! k)), Description (description (?rs ! k))] = Inr p'"
    by (simp add: remote_ok_def)
  from k(4) k(5)[rule_format, OF ok] have
    "requests (snd (startABTest remote_ok ?p world0))
       = [Retrieve_variations ''p1'', PATCH_prompt ''p1'' [Title ''B'', Description ''b'']]"
    "\<exists>t. fst (startABTest remote_ok ?p world0) = Inr (Some (Apply_best_variation ''p1'' bestB t))"
    by (simp_all add: k1 i bestB_def world0_def)
  with 1 2 3 4 5 6 7 show ?thesis by (intro conjI)
qed

section \<open>The next occurrence of a period\<close>

text \<open>
  What the function computes: for a day name of the list, between one and seven days ahead,
  seven when the day is today's, whatever the hour; the check on the hour that follows in
  the source is never reached with \<open>daysToAdd = 0\<close>.
\<close>

lemma indexOf_ge: "- 1 \<le> indexOf xs x"
  by (induction xs) (auto simp: Let_def)

lemma getNextOccurrence_valid_day:
  assumes "indexOf days dayName \<noteq> - 1"
  shows "getNextOccurrence dayName h today
     = setHours (addDate today
         (if indexOf days dayName \<le> getDay today then indexOf days dayName - getDay today + 7
          else indexOf days dayName - getDay today)) h"
proof -
  have "0 \<le> indexOf days dayName" using indexOf_ge[of days dayName] assms by linarith
  moreover have "getDay today < 7" by (simp add: getDay_def)
  ultimately show ?thesis using assms by (auto simp: getNextOccurrence_def Let_def)
qed

lemma getNextOccurrence_invalid_day:
  assumes "indexOf days dayName = - 1"
  shows "getNextOccurrence dayName h today = setHours (addDate today 1) h"
  using assms by (simp add: getNextOccurrence_def)

text \<open>
  C5 on a Monday at 9h (5 January 1970), asked for Monday 10h: \<open>getNextOccurrence\<close>
  returns the Monday of the week after at 10h, although the same Monday at 10h is a later
  time of that weekday and hour, seven days earlier.
\<close>

theorem getNextOccurrence_skips_today:
  "getDay 378000000 = 1 \<and> getHours 378000000 = 9
   \<and> getNextOccurrence ''Monday'' 10 378000000 = 986400000
   \<and> (378000000::int) < 381600000 \<and> (381600000::int) < 986400000
   \<and> getDay 381600000 = 1 \<and> getHours 381600000 = 10 \<and> 381600000 mod msPerHour = 0
   \<and> 986400000 = 381600000 + 7 * msPerDay"
  by (simp add: getNextOccurrence_def getDay_def getHours_def setHours_def addDate_def days_def
        msPerDay_def msPerHour_def Let_def)

section \<open>Buckets of low activity\<close>

lemma js_insert_insort_key:
  fixes f :: "'a \<Rightarrow> rat"
  shows "js_insert (\<lambda>a b. f a - f b) x ys = insort_key f x ys"
  by (induction ys) simp_all

lemma js_sort_sort_key:
  fixes f :: "'a \<Rightarrow> rat"
  shows "js_sort (\<lambda>a b. f a - f b) xs = sort_key f xs"
  by (induction xs) (simp_all add: js_sort_def js_insert_insort_key)

lemma map_of_setProperty: "map_of (setProperty k v al) = (map_of al)(k \<mapsto> v)"
  by (induction al) (auto simp: fun_eq_iff)

lemma keys_setProperty:
  "map fst (setProperty k v al) = (if k \<in> fst ` set al then map fst al else map fst al @ [k])"
proof (induction al)
  case Nil
  then show ?case by simp
next
  case (Cons a al)
  obtain k' v' where a: "a = (k', v')" by (cases a)
  show ?case
  proof (cases "k' = k")
    case True
    then show ?thesis by (simp add: a)
  next
    case False
    then show ?thesis using Cons.IH by (simp add: a)
  qed
qed

lemma distinct_setProperty:
  "distinct (map fst al) \<Longrightarrow> distinct (map fst (setProperty k v al))"
  by (simp add: keys_setProperty)

lemma activityByHourDay_snoc:
  "activityByHourDay (xs @ [x]) = addDataPoint x (activityByHourDay xs)"
  by (simp add: activityByHourDay_def)

lemma pointsAt_snoc:
  "pointsAt (xs @ [x]) k = (if keyOf x = k then pointsAt xs k @ [x] else pointsAt xs k)"
  by (simp add: pointsAt_def)

lemma pointsAt_empty: "k \<notin> keyOf ` set xs \<Longrightarrow> pointsAt xs k = []"
  by (auto simp: pointsAt_def filter_empty_conv)

lemma activity_invariant:
  "distinct (map fst (activityByHourDay xs))
   \<and> (\<forall>k. map_of (activityByHourDay xs) k
           = (if k \<in> keyOf ` set xs then Some (bucketAt xs k) else None))"
proof (induction xs rule: rev_induct)
  case Nil
  then show ?case by (simp add: activityByHourDay_def)
next
  case (snoc x xs)
  let ?obj = "activityByHourDay xs"
  from snoc.IH have d: "distinct (map fst ?obj)" by (rule conjunct1)
  from snoc.IH have m: "map_of ?obj k = (if k \<in> keyOf ` set xs then Some (bucketAt xs k) else None)" for k
    by blast
  have 1: "distinct (map fst (activityByHourDay (xs @ [x])))"
    by (simp add: activityByHourDay_snoc addDataPoint_def Let_def distinct_setProperty d)
  have 2: "map_of (activityByHourDay (xs @ [x])) k
           = (if k \<in> keyOf ` set (xs @ [x]) then Some (bucketAt (xs @ [x]) k) else None)" for k
  proof (cases "k = keyOf x")
    case True
    show ?thesis
    proof (cases "keyOf x \<in> keyOf ` set xs")
      case True
      with \<open>k = keyOf x\<close> show ?thesis
        by (simp add: activityByHourDay_snoc addDataPoint_def Let_def map_of_setProperty m
              bucketAt_def pointsAt_snoc visitsOf_def)
    next
      case False
      with \<open>k = keyOf x\<close> show ?thesis
        by (simp add: activityByHourDay_snoc addDataPoint_def Let_def map_of_setProperty m
              bucketAt_def pointsAt_snoc visitsOf_def pointsAt_empty)
    qed
  next
    case False
    then show ?thesis
      by (auto simp: activityByHourDay_snoc addDataPoint_def Let_def map_of_setProperty m
            bucketAt_def pointsAt_snoc)
  qed
  from 1 2 show ?case by blast
qed

lemma activity_entries:
  "(k, b) \<in> set (activityByHourDay xs) \<longleftrightarrow> k \<in> keyOf ` set xs \<and> b = bucketAt xs k"
proof -
  from activity_invariant[of xs] have d: "distinct (map fst (activityByHourDay xs))"
    by (rule conjunct1)
  from activity_invariant[of xs]
  have m: "map_of (activityByHourDay xs) k = (if k \<in> keyOf ` set xs then Some (bucketAt xs k) else None)"
    by blast
  have "(k, b) \<in> set (activityByHourDay xs) \<longleftrightarrow> map_of (activityByHourDay xs) k = Some b"
    using d by simp
  then show ?thesis using m by auto
qed

lemma getHours_range: "0 \<le> getHours t \<and> getHours t < 24"
  by (simp add: getHours_def)

lemma getDay_range: "0 \<le> getDay t \<and> getDay t < 7"
  by (simp add: getDay_def)

lemma keyOf_hour: "snd (keyOf x) = getHours (timestamp x)"
  by (simp add: keyOf_def Let_def)

lemma distinct_days: "distinct days"
  by (simp add: days_def)

lemma keyOf_eq_iff:
  "keyOf a = keyOf b \<longleftrightarrow>
     getDay (timestamp a) = getDay (timestamp b) \<and> getHours (timestamp a) = getHours (timestamp b)"
proof -
  have l: "length days = 7" by (simp add: days_def)
  have "nat (getDay (timestamp a)) < length days" "nat (getDay (timestamp b)) < length days"
    using getDay_range[of "timestamp a"] getDay_range[of "timestamp b"] l by linarith+
  then have "days ! nat (getDay (timestamp a)) = days ! nat (getDay (timestamp b))
      \<longleftrightarrow> nat (getDay (timestamp a)) = nat (getDay (timestamp b))"
    using distinct_days by (simp add: nth_eq_iff_index_eq)
  moreover have "nat (getDay (timestamp a)) = nat (getDay (timestamp b))
      \<longleftrightarrow> getDay (timestamp a) = getDay (timestamp b)"
    using getDay_range[of "timestamp a"] getDay_range[of "timestamp b"] by linarith
  ultimately show ?thesis by (auto simp: keyOf_def Let_def)
qed

lemma periodKey_allPeriods: "map periodKey (allPeriods xs) = map fst (activityByHourDay xs)"
proof -
  have "periodKey (withAverage (snd kb)) = fst kb" if "kb \<in> set (activityByHourDay xs)" for kb
  proof -
    obtain k b where kb: "kb = (k, b)" by (cases kb)
    with that activity_entries[of k b xs] have "b = bucketAt xs k" by simp
    then show ?thesis by (simp add: kb periodKey_def withAverage_def bucketAt_def)
  qed
  then show ?thesis by (simp add: allPeriods_def)
qed

lemma distinct_allPeriods: "distinct (map periodKey (allPeriods xs))"
  using activity_invariant[of xs] by (simp add: periodKey_allPeriods)

lemma keys_allPeriods: "periodKey ` set (allPeriods xs) = keyOf ` set xs"
proof -
  have "periodKey ` set (allPeriods xs) = set (map periodKey (allPeriods xs))" by simp
  also have "\<dots> = fst ` set (activityByHourDay xs)" by (simp add: periodKey_allPeriods)
  also have "\<dots> = keyOf ` set xs"
  proof (rule set_eqI)
    fix k
    show "k \<in> fst ` set (activityByHourDay xs) \<longleftrightarrow> k \<in> keyOf ` set xs"
      using activity_entries[of k _ xs] by (force simp: image_iff)
  qed
  finally show ?thesis .
qed

lemma period_fields:
  assumes "e \<in> set (allPeriods xs)"
  shows "periodKey e \<in> keyOf ` set xs
       \<and> count e = length (pointsAt xs (periodKey e))
       \<and> visits' e = sum_list (map visitsOf (pointsAt xs (periodKey e)))
       \<and> avgVisits e = averageAt xs (periodKey e)"
proof -
  from assms obtain k b where kb: "(k, b) \<in> set (activityByHourDay xs)" "e = withAverage b"
    by (auto simp: allPeriods_def)
  with activity_entries[of k b xs] have b: "k \<in> keyOf ` set xs" "b = bucketAt xs k" by simp_all
  then show ?thesis
    by (simp add: kb(2) periodKey_def withAverage_def bucketAt_def averageAt_def)
qed

lemma filteredPeriods_alt:
  "filteredPeriods xs = filter (\<lambda>e. 7 \<le> hour e) (allPeriods xs)"
proof -
  have "hour e \<le> 23" if "e \<in> set (allPeriods xs)" for e
  proof -
    from period_fields[OF that] obtain x where "periodKey e = keyOf x" by auto
    then have "hour e = getHours (timestamp x)" by (simp add: periodKey_def keyOf_def Let_def)
    with getHours_range[of "timestamp x"] show ?thesis by simp
  qed
  then show ?thesis
    unfolding filteredPeriods_def allPeriods_def[symmetric]
    by (intro filter_cong) auto
qed

lemma keys_filteredPeriods:
  "periodKey ` set (filteredPeriods xs) = {k \<in> keyOf ` set xs. 7 \<le> snd k}"
proof -
  have "periodKey ` set (filteredPeriods xs) = {k \<in> periodKey ` set (allPeriods xs). 7 \<le> snd k}"
    by (auto simp: filteredPeriods_alt periodKey_def)
  then show ?thesis by (simp add: keys_allPeriods)
qed

lemma distinct_filteredPeriods: "distinct (map periodKey (filteredPeriods xs))"
  by (simp add: filteredPeriods_alt distinct_map_filter distinct_allPeriods)

lemma length_filteredPeriods:
  "length (filteredPeriods xs) = card {k \<in> keyOf ` set xs. 7 \<le> snd k}"
proof -
  have "length (filteredPeriods xs) = length (map periodKey (filteredPeriods xs))" by simp
  also have "\<dots> = card (set (map periodKey (filteredPeriods xs)))"
    using distinct_filteredPeriods[of xs] by (simp only: distinct_card)
  also have "\<dots> = card {k \<in> keyOf ` set xs. 7 \<le> snd k}"
    using keys_filteredPeriods[of xs] by simp
  finally show ?thesis .
qed

lemma findLowActivityPeriods_alt:
  "findLowActivityPeriods xs = take 5 (sort_key avgVisits (filteredPeriods xs))"
  by (simp add: findLowActivityPeriods_def js_sort_sort_key)

text \<open>
  C9: \<open>findLowActivityPeriods\<close> returns five periods, or all of them when fewer have an
  hour of 7 or more; they have distinct (day, hour) keys, each key belongs to a data point and
  has an hour of at least 7, each period counts and sums the visits of the data points of its
  key and holds their average; the list ascends by average, and every period left out with an
  hour of at least 7 has an average no smaller than those returned. Two data points share a
  key exactly when they share the day of the week and the hour.
\<close>

theorem findLowActivityPeriods_lowest_buckets:
  "length (findLowActivityPeriods analytics) = min 5 (card {k \<in> keyOf ` set analytics. 7 \<le> snd k})
   \<and> distinct (map periodKey (findLowActivityPeriods analytics))
   \<and> (\<forall>e\<in>set (findLowActivityPeriods analytics).
         periodKey e \<in> keyOf ` set analytics \<and> 7 \<le> hour e
         \<and> count e = length (pointsAt analytics (periodKey e))
         \<and> visits' e = sum_list (map visitsOf (pointsAt analytics (periodKey e)))
         \<and> avgVisits e = averageAt analytics (periodKey e))
   \<and> sorted (map avgVisits (findLowActivityPeriods analytics))
   \<and> (\<forall>k\<in>{k \<in> keyOf ` set analytics. 7 \<le> snd k}.
         k \<notin> periodKey ` set (findLowActivityPeriods analytics) \<longrightarrow>
         (\<forall>e\<in>set (findLowActivityPeriods analytics). avgVisits e \<le> averageAt analytics k))
   \<and> (\<forall>a b. keyOf a = keyOf b \<longleftrightarrow>
         getDay (timestamp a) = getDay (timestamp b) \<and> getHours (timestamp a) = getHours (timestamp b))"
proof -
  define S where "S = sort_key avgVisits (filteredPeriods analytics)"
  define R where "R = findLowActivityPeriods analytics"
  have R: "R = take 5 S" by (simp add: R_def S_def findLowActivityPeriods_alt)
  have setS: "set S = set (filteredPeriods analytics)" by (simp add: S_def)
  have lenS: "length S = card {k \<in> keyOf ` set analytics. 7 \<le> snd k}"
    by (simp add: S_def length_filteredPeriods)
  have sortedS: "sorted (map avgVisits S)" by (simp add: S_def)
  have inF: "e \<in> set (allPeriods analytics) \<and> 7 \<le> hour e" if "e \<in> set S" for e
    using that by (simp add: setS filteredPeriods_alt)
  have 1: "length R = min 5 (card {k \<in> keyOf ` set analytics. 7 \<le> snd k})"
    by (simp add: R lenS min.commute)
  have dS: "distinct (map periodKey S)"
  proof -
    from distinct_filteredPeriods[of analytics]
    have "distinct (filteredPeriods analytics)" "inj_on periodKey (set (filteredPeriods analytics))"
      by (simp_all add: distinct_map)
    then show ?thesis by (simp add: distinct_map S_def)
  qed
  have 2: "distinct (map periodKey R)"
    using dS by (simp add: R take_map[symmetric])
  have 3: "\<forall>e\<in>set R. periodKey e \<in> keyOf ` set analytics \<and> 7 \<le> hour e
         \<and> count e = length (pointsAt analytics (periodKey e))
         \<and> visits' e = sum_list (map visitsOf (pointsAt analytics (periodKey e)))
         \<and> avgVisits e = averageAt analytics (periodKey e)"
  proof
    fix e assume "e \<in> set R"
    then have "e \<in> set S" unfolding R by (rule in_set_takeD)
    from inF[OF this] period_fields[of e analytics]
    show "periodKey e \<in> keyOf ` set analytics \<and> 7 \<le> hour e
         \<and> count e = length (pointsAt analytics (periodKey e))
         \<and> visits' e = sum_list (map visitsOf (pointsAt analytics (periodKey e)))
         \<and> avgVisits e = averageAt analytics (periodKey e)" by simp
  qed
  have 4: "sorted (map avgVisits R)"
    using sortedS by (simp add: R take_map[symmetric] sorted_wrt_take)
  have 5: "\<forall>k\<in>{k \<in> keyOf ` set analytics. 7 \<le> snd k}.
         k \<notin> periodKey ` set R \<longrightarrow> (\<forall>e\<in>set R. avgVisits e \<le> averageAt analytics k)"
  proof (intro ballI impI)
    fix k e
    assume k: "k \<in> {k \<in> keyOf ` set analytics. 7 \<le> snd k}" "k \<notin> periodKey ` set R" and e: "e \<in> set R"
    from k(1) keys_filteredPeriods[of analytics]
    have "k \<in> periodKey ` set (filteredPeriods analytics)" by simp
    then obtain e' where
      e': "e' \<in> set (filteredPeriods analytics)" "periodKey e' = k" by (auto simp: image_iff)
    then have e'S: "e' \<in> set S" by (simp add: setS)
    have "e' \<notin> set R" using k(2) e'(2) by auto
    moreover have "set S = set (take 5 S) \<union> set (drop 5 S)"
      by (metis append_take_drop_id set_append)
    ultimately have d: "e' \<in> set (drop 5 S)" using e'S R by auto
    have "sorted (map avgVisits (take 5 S) @ map avgVisits (drop 5 S))"
      using sortedS by (simp add: map_append[symmetric] del: map_append)
    then have "\<forall>x\<in>set (map avgVisits (take 5 S)). \<forall>y\<in>set (map avgVisits (drop 5 S)). x \<le> y"
      by (simp add: sorted_append)
    with e d R have "avgVisits e \<le> avgVisits e'" by auto
    moreover from inF[OF e'S] period_fields[of e' analytics] e'(2)
    have "avgVisits e' = averageAt analytics k" by simp
    ultimately show "avgVisits e \<le> averageAt analytics k" by simp
  qed
  have 6: "\<forall>a b. keyOf a = keyOf b \<longleftrightarrow>
         getDay (timestamp a) = getDay (timestamp b) \<and> getHours (timestamp a) = getHours (timestamp b)"
    using keyOf_eq_iff by blast
  from 1 2 3 4 5 6 show ?thesis unfolding R_def by (intro conjI)
qed

lemmas date_defs = keyOf_def getDay_def getHours_def msPerDay_def msPerHour_def days_def Let_def

lemma series1_keys:
  "map keyOf series1
     = [(''Monday'', 9), (''Monday'', 3), (''Monday'', 10), (''Monday'', 11), (''Monday'', 12),
        (''Monday'', 13), (''Monday'', 14), (''Monday'', 9)]"
  by (simp add: series1_def date_defs)

lemma series1_activity:
  "activityByHourDay series1
     = [((''Monday'', 9), \<lparr> day = ''Monday'', hour = 9, count = 2, visits' = 60 \<rparr>),
        ((''Monday'', 3), \<lparr> day = ''Monday'', hour = 3, count = 1, visits' = 1 \<rparr>),
        ((''Monday'', 10), \<lparr> day = ''Monday'', hour = 10, count = 1, visits' = 50 \<rparr>),
        ((''Monday'', 11), \<lparr> day = ''Monday'', hour = 11, count = 1, visits' = 40 \<rparr>),
        ((''Monday'', 12), \<lparr> day = ''Monday'', hour = 12, count = 1, visits' = 30 \<rparr>),
        ((''Monday'', 13), \<lparr> day = ''Monday'', hour = 13, count = 1, visits' = 20 \<rparr>),
        ((''Monday'', 14), \<lparr> day = ''Monday'', hour = 14, count = 1, visits' = 10 \<rparr>)]"
  by (simp add: activityByHourDay_def addDataPoint_def series1_def date_defs)

lemma series1_periods:
  "findLowActivityPeriods series1
     = [\<lparr> day = ''Monday'', hour = 14, count = 1, visits' = 10, avgVisits = 10 \<rparr>,
        \<lparr> day = ''Monday'', hour = 13, count = 1, visits' = 20, avgVisits = 20 \<rparr>,
        \<lparr> day = ''Monday'', hour = 9, count = 2, visits' = 60, avgVisits = 30 \<rparr>,
        \<lparr> day = ''Monday'', hour = 12, count = 1, visits' = 30, avgVisits = 30 \<rparr>,
        \<lparr> day = ''Monday'', hour = 11, count = 1, visits' = 40, avgVisits = 40 \<rparr>]"
  by (simp add: findLowActivityPeriods_def filteredPeriods_def series1_activity withAverage_def js_sort_def)

theorem findLowActivityPeriods_lowest_buckets_witness:
  "findLowActivityPeriods series1
     = [\<lparr> day = ''Monday'', hour = 14, count = 1, visits' = 10, avgVisits = 10 \<rparr>,
        \<lparr> day = ''Monday'', hour = 13, count = 1, visits' = 20, avgVisits = 20 \<rparr>,
        \<lparr> day = ''Monday'', hour = 9, count = 2, visits' = 60, avgVisits = 30 \<rparr>,
        \<lparr> day = ''Monday'', hour = 12, count = 1, visits' = 30, avgVisits = 30 \<rparr>,
        \<lparr> day = ''Monday'', hour = 11, count = 1, visits' = 40, avgVisits = 40 \<rparr>]
   \<and> card {k \<in> keyOf ` set series1. 7 \<le> snd k} = 6
   \<and> (''Monday'', 10) \<in> {k \<in> keyOf ` set series1. 7 \<le> snd k}
   \<and> (''Monday'', 10) \<notin> periodKey ` set (findLowActivityPeriods series1)
   \<and> averageAt series1 (''Monday'', 10) = 50
   \<and> avgVisits \<lparr> day = ''Monday'', hour = 11, count = 1, visits' = 40, avgVisits = 40 \<rparr>
        \<le> averageAt series1 (''Monday'', 10)
   \<and> sorted (map avgVisits (findLowActivityPeriods series1))"
proof -
  let ?k = "(''Monday'', 10 :: int)"
  let ?e = "\<lparr> day = ''Monday'', hour = 11, count = 1, visits' = 40, avgVisits = 40 \<rparr>"
  have keys: "keyOf ` set series1 = set (map keyOf series1)" by simp
  have B: "{k \<in> keyOf ` set series1. 7 \<le> snd k}
      = {(''Monday'', 9), (''Monday'', 10), (''Monday'', 11), (''Monday'', 12), (''Monday'', 13), (''Monday'', 14)}"
    unfolding keys series1_keys by auto
  have c: "card {k \<in> keyOf ` set series1. 7 \<le> snd k} = 6" unfolding B by simp
  have k1: "?k \<in> {k \<in> keyOf ` set series1. 7 \<le> snd k}" unfolding B by simp
  have k2: "?k \<notin> periodKey ` set (findLowActivityPeriods series1)"
    by (simp add: series1_periods periodKey_def)
  have e: "?e \<in> set (findLowActivityPeriods series1)" by (simp add: series1_periods)
  have a: "averageAt series1 ?k = 50"
    by (simp add: averageAt_def pointsAt_def visitsOf_def series1_def date_defs)
  note t = findLowActivityPeriods_lowest_buckets[of series1]
  from t have s: "sorted (map avgVisits (findLowActivityPeriods series1))" by blast
  from t k1 k2 e have l: "avgVisits ?e \<le> averageAt series1 ?k" by blast
  from series1_periods c k1 k2 a l s show ?thesis by (intro conjI)
qed

end
